theory Spec2Isabelle
  imports Main "HOL-Library.Sublist"
begin

section \<open>Restore orchestration of the backup CLI: a shallow embedding\<close>

text \<open>
  The development follows \<^verbatim>\<open>cmd/elasticsearch/restore-snapshot.go\<close>,
  \<^verbatim>\<open>internal/k8s/client.go\<close> and \<^verbatim>\<open>internal/elasticsearch/client.go\<close>.
  Go strings are byte sequences and are modelled as \<^typ>\<open>string\<close>. A Go \<^verbatim>\<open>error\<close> is
  modelled by its message; \<^verbatim>\<open>fmt.Errorf("p: %w", err)\<close> is the message \<open>p @ err\<close>, and the
  \<^verbatim>\<open>nil\<close> error is \<^term>\<open>None\<close>.
\<close>

type_synonym error = string

subsection \<open>Index classification (pure)\<close>

text \<open>\<^verbatim>\<open>strings.HasPrefix(s, prefix)\<close>:
  \<^verbatim>\<open>len(s) >= len(prefix) && s[:len(prefix)] == prefix\<close>.\<close>

definition HasPrefix :: "string \<Rightarrow> string \<Rightarrow> bool" where
  "HasPrefix s p = (length p \<le> length s \<and> take (length p) s = p)"

text \<open>The loop of \<^verbatim>\<open>filterSTSIndices\<close>, with the slice being appended to as accumulator.\<close>

fun filterSTSIndices_loop :: "string list \<Rightarrow> string \<Rightarrow> string \<Rightarrow> string list \<Rightarrow> string list" where
  "filterSTSIndices_loop [] indexPrefix datastreamPrefix stsIndices = stsIndices"
| "filterSTSIndices_loop (index # rest) indexPrefix datastreamPrefix stsIndices =
     (if HasPrefix index indexPrefix \<or> HasPrefix index datastreamPrefix
      then filterSTSIndices_loop rest indexPrefix datastreamPrefix (stsIndices @ [index])
      else filterSTSIndices_loop rest indexPrefix datastreamPrefix stsIndices)"

definition filterSTSIndices :: "string list \<Rightarrow> string \<Rightarrow> string \<Rightarrow> string list" where
  "filterSTSIndices allIndices indexPrefix datastreamPrefix =
     filterSTSIndices_loop allIndices indexPrefix datastreamPrefix []"

fun hasDatastreamIndices :: "string list \<Rightarrow> string \<Rightarrow> bool" where
  "hasDatastreamIndices [] datastreamPrefix = False"
| "hasDatastreamIndices (index # rest) datastreamPrefix =
     (if HasPrefix index (datastreamPrefix @ ''-'') then True
      else hasDatastreamIndices rest datastreamPrefix)"

subsection \<open>The existence probe\<close>

text \<open>
  The outcome of one HTTP call through the search-engine library: either the transport
  failed, or a response arrived with a status code and a printable form
  (\<^verbatim>\<open>res.String()\<close>). The library's \<^verbatim>\<open>IsError\<close> is \<^verbatim>\<open>StatusCode > 299\<close>.
\<close>

datatype probe = TransportError error | Response int string

definition IsError :: "int \<Rightarrow> bool" where
  "IsError code = (code > 299)"

definition StatusNotFound :: int where
  "StatusNotFound = 404"

text \<open>\<^verbatim>\<open>IndexExists\<close> as a function of what the probe returned; the result is Go's
  pair \<^verbatim>\<open>(bool, error)\<close>.\<close>

fun IndexExists_of :: "probe \<Rightarrow> bool \<times> error option" where
  "IndexExists_of (TransportError err) =
     (False, Some (''failed to check index existence: '' @ err))"
| "IndexExists_of (Response code str) =
     (if code = StatusNotFound then (False, None)
      else if IsError code then (False, Some (''elasticsearch returned error: '' @ str))
      else (True, None))"

subsection \<open>Data and the world the commands run in\<close>

text \<open>\<^verbatim>\<open>DeploymentScale\<close> of \<^verbatim>\<open>internal/k8s/client.go\<close>. \<^verbatim>\<open>Replicas\<close> is an
  \<^verbatim>\<open>int32\<close>; the code only stores it, copies it and compares it with zero, so it is an
  \<^typ>\<open>int\<close> here.\<close>

record DeploymentScale =
  Name :: string
  Replicas :: int

text \<open>What the code reads of a deployment: its name and \<^verbatim>\<open>Spec.Replicas\<close>, a pointer
  that may be nil.\<close>

record Deployment =
  depName :: string
  specReplicas :: "int option"

text \<open>The fields of the loaded configuration that \<^verbatim>\<open>runRestore\<close> reads.\<close>

record config =
  ScaleDownLabelSelector :: string
  ServiceName :: string
  LocalPortForwardPort :: int
  Port :: int
  Repository :: string
  IndexPrefix :: string
  DatastreamIndexPrefix :: string
  DatastreamName :: string
  IndicesPattern :: string

text \<open>
  Everything the commands do to the outside is recorded, in order, as a list of events:
  the calls on the cluster API and on the search engine, the logger calls with their
  format string and arguments, reads, sleeps (in seconds) and the channel operations.
  \<open>Log l f a\<close> and \<open>Println\<close> record that the method of the logger was called; what the
  logger then writes, which depends on its flags, is \<open>Logger_output\<close> below.
\<close>

datatype arg = S string | I int

datatype level = Debug | Info | Success | Warning

datatype event =
    Log level string "arg list"
  | Println
  | Print string
  | ReadStdin
  | K8sList string string
  | K8sGet string string
  | K8sUpdate string string int
  | PortForwardService string string int int
  | WaitReady
  | CloseStopChan
  | EsListIndices string
  | EsDeleteIndex string
  | EsIndexExists string
  | EsRollover string
  | EsGetSnapshot string string
  | EsRestoreSnapshot string string string bool
  | Sleep nat
  | Stderr string

text \<open>
  The outside world: the command-line flags (\<open>Quiet\<close> and \<open>DebugFlag\<close> are
  \<^verbatim>\<open>cliCtx.Config.Quiet\<close> and \<^verbatim>\<open>cliCtx.Config.Debug\<close>, from which \<^verbatim>\<open>runRestore\<close> builds
  its logger), the bytes waiting on standard input, the lower-case table of the Unicode
  library for the code points above U+007F (\<open>caseTable\<close>), and for
  every call that leaves the program the answer it will get. The cluster API answers by
  deployment name (and, for an update, the replica count written); the existence probe of
  an index may answer differently each time, so it also takes the number of probes of
  that index made before.
\<close>

record world =
  Namespace :: string
  Quiet :: bool
  DebugFlag :: bool
  snapshotName :: string
  dropAllIndices :: bool
  skipConfirmation :: bool
  stdin :: string
  caseTable :: "nat \<Rightarrow> nat"
  k8sNewClient :: "error option"
  LoadConfig :: "error + config"
  deploymentsList :: "string \<Rightarrow> error + Deployment list"
  deploymentsGet :: "string \<Rightarrow> error option"
  deploymentsUpdate :: "string \<Rightarrow> int \<Rightarrow> error option"
  portForwardService :: "error option"
  portForwardReady :: bool
  esNewClient :: "error option"
  catIndices :: "error + string list"
  indicesDelete :: "string \<Rightarrow> probe"
  indicesExists :: "string \<Rightarrow> nat \<Rightarrow> probe"
  indicesRollover :: "string \<Rightarrow> probe"
  snapshotGet :: "error + string list"
  snapshotRestore :: probe

subsection \<open>The logger: package \<^verbatim>\<open>logger\<close>\<close>

text \<open>
  The logger writes to standard error. \<^verbatim>\<open>Infof\<close>, \<^verbatim>\<open>Successf\<close>, \<^verbatim>\<open>Warningf\<close> and
  \<^verbatim>\<open>Println\<close> write only when the logger is not quiet, \<^verbatim>\<open>Debugf\<close> only when it is in
  debug mode; each puts its prefix before the format and a newline after it. A write is
  kept as the format and the arguments handed to \<^verbatim>\<open>fmt.Fprintf\<close>. The check mark of
  \<^verbatim>\<open>Successf\<close> is the three bytes of U+2713.
\<close>

definition newline :: char where
  "newline = CHR 0x0A"

fun Logger_output :: "world \<Rightarrow> event \<Rightarrow> (string \<times> arg list) list" where
  "Logger_output w (Log Info f a) = (if \<not> Quiet w then [(f @ [newline], a)] else [])"
| "Logger_output w (Log Success f a) =
     (if \<not> Quiet w then [([CHR 0xE2, CHR 0x9C, CHR 0x93] @ '' '' @ f @ [newline], a)] else [])"
| "Logger_output w (Log Warning f a) =
     (if \<not> Quiet w then [(''Warning: '' @ f @ [newline], a)] else [])"
| "Logger_output w (Log Debug f a) =
     (if DebugFlag w then [(''DEBUG: '' @ f @ [newline], a)] else [])"
| "Logger_output w Println = (if \<not> Quiet w then [([newline], [])] else [])"
| "Logger_output w e = []"

text \<open>Everything the logger wrote in the course of a trace.\<close>

definition logged :: "world \<Rightarrow> event list \<Rightarrow> (string \<times> arg list) list" where
  "logged w tr = concat (map (Logger_output w) tr)"

subsection \<open>The cluster client: \<^verbatim>\<open>internal/k8s/client.go\<close>\<close>

definition originalReplicas :: "Deployment \<Rightarrow> int" where
  "originalReplicas d = (case specReplicas d of None \<Rightarrow> 0 | Some r \<Rightarrow> r)"

definition scaleOf :: "Deployment \<Rightarrow> DeploymentScale" where
  "scaleOf d = \<lparr>Name = depName d, Replicas = originalReplicas d\<rparr>"

text \<open>The loop of \<^verbatim>\<open>ScaleDownDeployments\<close>: the original count is appended first, then
  the deployment is updated to zero when the count is positive; a failed update returns
  what was appended so far together with the error.\<close>

fun ScaleDown_loop ::
  "world \<Rightarrow> string \<Rightarrow> Deployment list \<Rightarrow> DeploymentScale list \<Rightarrow> event list
   \<Rightarrow> (DeploymentScale list \<times> error option) \<times> event list" where
  "ScaleDown_loop w ns [] scaledDeployments tr = ((scaledDeployments, None), tr)"
| "ScaleDown_loop w ns (deployment # rest) scaledDeployments tr =
     (if originalReplicas deployment > 0 then
        (case deploymentsUpdate w (depName deployment) 0 of
           Some err \<Rightarrow>
             ((scaledDeployments @ [scaleOf deployment],
               Some (''failed to scale down deployment '' @ depName deployment @ '': '' @ err)),
              tr @ [K8sUpdate ns (depName deployment) 0])
         | None \<Rightarrow>
             ScaleDown_loop w ns rest (scaledDeployments @ [scaleOf deployment])
               (tr @ [K8sUpdate ns (depName deployment) 0]))
      else ScaleDown_loop w ns rest (scaledDeployments @ [scaleOf deployment]) tr)"

definition ScaleDownDeployments ::
  "world \<Rightarrow> string \<Rightarrow> string \<Rightarrow> event list
   \<Rightarrow> (DeploymentScale list \<times> error option) \<times> event list" where
  "ScaleDownDeployments w ns labelSelector tr =
     (case deploymentsList w labelSelector of
        Inl err \<Rightarrow> (([], Some (''failed to list deployments: '' @ err)), tr @ [K8sList ns labelSelector])
      | Inr items \<Rightarrow>
          if length items = 0 then (([], None), tr @ [K8sList ns labelSelector])
          else ScaleDown_loop w ns items [] (tr @ [K8sList ns labelSelector]))"

text \<open>\<^verbatim>\<open>ScaleUpDeployments\<close>: for each entry a get, then an update to the recorded count;
  either failing returns at once.\<close>

fun ScaleUpDeployments ::
  "world \<Rightarrow> string \<Rightarrow> DeploymentScale list \<Rightarrow> event list \<Rightarrow> error option \<times> event list" where
  "ScaleUpDeployments w ns [] tr = (None, tr)"
| "ScaleUpDeployments w ns (scale # rest) tr =
     (case deploymentsGet w (Name scale) of
        Some err \<Rightarrow>
          (Some (''failed to get deployment '' @ Name scale @ '': '' @ err),
           tr @ [K8sGet ns (Name scale)])
      | None \<Rightarrow>
          (case deploymentsUpdate w (Name scale) (Replicas scale) of
             Some err \<Rightarrow>
               (Some (''failed to scale up deployment '' @ Name scale @ '': '' @ err),
                tr @ [K8sGet ns (Name scale), K8sUpdate ns (Name scale) (Replicas scale)])
           | None \<Rightarrow>
               ScaleUpDeployments w ns rest
                 (tr @ [K8sGet ns (Name scale), K8sUpdate ns (Name scale) (Replicas scale)])))"

subsection \<open>The search-engine client: \<^verbatim>\<open>internal/elasticsearch/client.go\<close>\<close>

text \<open>The shape shared by \<^verbatim>\<open>DeleteIndex\<close>, \<^verbatim>\<open>RolloverDatastream\<close> and
  \<^verbatim>\<open>RestoreSnapshot\<close>: a transport error is wrapped, an error status is reported, anything
  else is success.\<close>

definition checkResponse :: "string \<Rightarrow> probe \<Rightarrow> error option" where
  "checkResponse what p =
     (case p of
        TransportError err \<Rightarrow> Some (what @ err)
      | Response code str \<Rightarrow>
          if IsError code then Some (''elasticsearch returned error: '' @ str) else None)"

definition ListIndices :: "world \<Rightarrow> string \<Rightarrow> event list \<Rightarrow> (error + string list) \<times> event list" where
  "ListIndices w pattern tr = (catIndices w, tr @ [EsListIndices pattern])"

definition GetSnapshot ::
  "world \<Rightarrow> string \<Rightarrow> string \<Rightarrow> event list \<Rightarrow> (error + string list) \<times> event list" where
  "GetSnapshot w repository name tr = (snapshotGet w, tr @ [EsGetSnapshot repository name])"

definition DeleteIndex :: "world \<Rightarrow> string \<Rightarrow> event list \<Rightarrow> error option \<times> event list" where
  "DeleteIndex w index tr =
     (checkResponse ''failed to delete index: '' (indicesDelete w index), tr @ [EsDeleteIndex index])"

definition IndexExists :: "world \<Rightarrow> string \<Rightarrow> event list \<Rightarrow> (bool \<times> error option) \<times> event list" where
  "IndexExists w index tr =
     (IndexExists_of (indicesExists w index (count_list tr (EsIndexExists index))),
      tr @ [EsIndexExists index])"

definition RolloverDatastream :: "world \<Rightarrow> string \<Rightarrow> event list \<Rightarrow> error option \<times> event list" where
  "RolloverDatastream w datastreamName tr =
     (checkResponse ''failed to rollover datastream: '' (indicesRollover w datastreamName),
      tr @ [EsRollover datastreamName])"

definition RestoreSnapshot ::
  "world \<Rightarrow> string \<Rightarrow> string \<Rightarrow> string \<Rightarrow> bool \<Rightarrow> event list \<Rightarrow> error option \<times> event list" where
  "RestoreSnapshot w repository name indicesPattern waitForCompletion tr =
     (checkResponse ''failed to restore snapshot: '' (snapshotRestore w),
      tr @ [EsRestoreSnapshot repository name indicesPattern waitForCompletion])"

subsection \<open>The restore command: \<^verbatim>\<open>cmd/elasticsearch/restore-snapshot.go\<close>\<close>

definition defaultMaxIndexDeleteAttempts :: nat where
  "defaultMaxIndexDeleteAttempts = 30"

text \<open>One second, the unit of \<^term>\<open>Sleep\<close>.\<close>

definition defaultIndexDeleteRetryInterval :: nat where
  "defaultIndexDeleteRetryInterval = 1"

text \<open>
  \<^verbatim>\<open>reader.ReadString('\n')\<close> on a fresh reader over standard input: the bytes up to and
  including the first newline, or everything that is left together with the end-of-file
  error when no newline comes.
\<close>

definition ReadString :: "string \<Rightarrow> string \<times> error option" where
  "ReadString input =
     (if newline \<in> set input then (takeWhile (\<lambda>c. c \<noteq> newline) input @ [newline], None)
      else (input, Some ''EOF''))"

text \<open>
  The string library. A Go string is a sequence of bytes; the library reads it as UTF-8.
  \<open>DecodeRune\<close> is \<^verbatim>\<open>utf8.DecodeRuneInString\<close> on the bytes as numbers: the code point
  at the front and its width, or \<open>RuneError\<close> with width 1 for a byte that starts no
  valid encoding (too short, a bad continuation byte, an overlong form, a surrogate,
  beyond U+10FFFF).
\<close>

definition bytes :: "string \<Rightarrow> nat list" where
  "bytes s = map of_char s"

definition RuneError :: nat where
  "RuneError = 0xFFFD"

definition utf8Size :: "nat \<Rightarrow> nat" where
  "utf8Size s0 = (if s0 < 0xE0 then 2 else if s0 < 0xF0 then 3 else 4)"

definition acceptLo :: "nat \<Rightarrow> nat" where
  "acceptLo s0 = (if s0 = 0xE0 then 0xA0 else if s0 = 0xF0 then 0x90 else 0x80)"

definition acceptHi :: "nat \<Rightarrow> nat" where
  "acceptHi s0 = (if s0 = 0xED then 0x9F else if s0 = 0xF4 then 0x8F else 0xBF)"

fun DecodeRune :: "nat list \<Rightarrow> nat \<times> nat" where
  "DecodeRune [] = (RuneError, 0)"
| "DecodeRune (s0 # rest) =
     (if s0 < 0x80 then (s0, 1)
      else if s0 < 0xC2 \<or> 0xF4 < s0 then (RuneError, 1)
      else if length (s0 # rest) < utf8Size s0 then (RuneError, 1)
      else if rest ! 0 < acceptLo s0 \<or> acceptHi s0 < rest ! 0 then (RuneError, 1)
      else if utf8Size s0 \<le> 2 then ((s0 mod 32) * 64 + rest ! 0 mod 64, 2)
      else if rest ! 1 < 0x80 \<or> 0xBF < rest ! 1 then (RuneError, 1)
      else if utf8Size s0 \<le> 3
        then ((s0 mod 16) * 4096 + (rest ! 0 mod 64) * 64 + rest ! 1 mod 64, 3)
      else if rest ! 2 < 0x80 \<or> 0xBF < rest ! 2 then (RuneError, 1)
      else ((s0 mod 8) * 262144 + (rest ! 0 mod 64) * 4096 + (rest ! 1 mod 64) * 64
            + rest ! 2 mod 64, 4))"

text \<open>The code points of a string as a \<^verbatim>\<open>range\<close> loop over it yields them: decode at the
  front, advance by the width.\<close>

function runesOf :: "nat list \<Rightarrow> nat list" where
  "runesOf [] = []"
| "runesOf (b # bs) =
     fst (DecodeRune (b # bs)) # runesOf (drop (snd (DecodeRune (b # bs)) - 1) bs)"
  by pat_completeness auto
termination
  by (relation "measure length") (simp_all del: DecodeRune.simps)

text \<open>
  The strings that \<^verbatim>\<open>strings.ToLower\<close> and \<^verbatim>\<open>strings.TrimSpace\<close> return are kept as their
  code points. \<^verbatim>\<open>ToLower\<close> returns valid UTF-8 on every input, and on valid UTF-8 the
  bytes and the code points determine each other, so that comparing with \<open>"yes"\<close> is
  comparing code points.

  \<^verbatim>\<open>strings.ToLower\<close>: a string of ASCII bytes is lowered byte by byte; any other string
  goes through \<^verbatim>\<open>strings.Map\<close> with \<^verbatim>\<open>unicode.ToLower\<close>, which replaces every code point
  (and every invalid byte, read as \<open>RuneError\<close>) by its image and writes an image that
  is no valid code point as \<open>RuneError\<close>. \<^verbatim>\<open>unicode.ToLower\<close> computes the ASCII letters
  itself and looks the rest up in the case table.
\<close>

definition isASCII :: "string \<Rightarrow> bool" where
  "isASCII s = list_all (\<lambda>c. (of_char c :: nat) < 128) s"

definition toLowerByte :: "char \<Rightarrow> char" where
  "toLowerByte c =
     (if 65 \<le> (of_char c :: nat) \<and> (of_char c :: nat) \<le> 90
      then char_of ((of_char c :: nat) + 32) else c)"

definition ToLowerRune :: "world \<Rightarrow> nat \<Rightarrow> nat" where
  "ToLowerRune w r =
     (if r \<le> 0x7F then (if 65 \<le> r \<and> r \<le> 90 then r + 32 else r) else caseTable w r)"

definition ValidRune :: "nat \<Rightarrow> bool" where
  "ValidRune r = (r < 0xD800 \<or> (0xDFFF < r \<and> r \<le> 0x10FFFF))"

definition MapRunes :: "(nat \<Rightarrow> nat) \<Rightarrow> string \<Rightarrow> nat list" where
  "MapRunes mapping s =
     map (\<lambda>c. if ValidRune (mapping c) then mapping c else RuneError) (runesOf (bytes s))"

definition ToLower :: "world \<Rightarrow> string \<Rightarrow> nat list" where
  "ToLower w s =
     (if isASCII s then map (\<lambda>c. of_char (toLowerByte c)) s else MapRunes (ToLowerRune w) s)"

text \<open>\<^verbatim>\<open>unicode.IsSpace\<close>: a switch up to U+00FF, the \<open>White_Space\<close> table beyond.
  \<^verbatim>\<open>strings.TrimSpace\<close> removes the code points it accepts from both ends; its loops over
  leading and trailing ASCII bytes remove the same ones and are not told apart here.\<close>

definition IsSpace :: "nat \<Rightarrow> bool" where
  "IsSpace r =
     (if r \<le> 0xFF
      then r = 0x09 \<or> r = 0x0A \<or> r = 0x0B \<or> r = 0x0C \<or> r = 0x0D \<or> r = 0x20
           \<or> r = 0x85 \<or> r = 0xA0
      else r = 0x1680 \<or> (0x2000 \<le> r \<and> r \<le> 0x200A) \<or> (0x2028 \<le> r \<and> r \<le> 0x2029)
           \<or> r = 0x202F \<or> r = 0x205F \<or> r = 0x3000)"

definition TrimSpace :: "nat list \<Rightarrow> nat list" where
  "TrimSpace rs = rev (dropWhile IsSpace (rev (dropWhile IsSpace rs)))"

definition confirmDeletion :: "world \<Rightarrow> event list \<Rightarrow> error option \<times> event list" where
  "confirmDeletion w tr =
     (case ReadString (stdin w) of
        (response, Some err) \<Rightarrow>
          (Some (''failed to read confirmation: '' @ err),
           tr @ [Print (newline # ''Are you sure you want to delete these indices? (yes/no): ''), ReadStdin])
      | (response, None) \<Rightarrow>
          (if TrimSpace (ToLower w response) \<noteq> bytes ''yes''
              \<and> TrimSpace (ToLower w response) \<noteq> bytes ''y''
           then Some ''restore cancelled by user'' else None,
           tr @ [Print (newline # ''Are you sure you want to delete these indices? (yes/no): ''), ReadStdin]))"

text \<open>The verification loop of \<^verbatim>\<open>deleteIndexWithVerification\<close>, from \<open>attempt\<close> on.\<close>

function verify_loop :: "world \<Rightarrow> string \<Rightarrow> nat \<Rightarrow> event list \<Rightarrow> error option \<times> event list" where
  "verify_loop w index attempt tr =
     (if attempt < defaultMaxIndexDeleteAttempts then
        (case IndexExists w index tr of
           ((ex, Some err), tr1) \<Rightarrow> (Some (''failed to check index existence: '' @ err), tr1)
         | ((ex, None), tr1) \<Rightarrow>
             if \<not> ex then (None, tr1 @ [Log Debug ''Index successfully deleted: %s'' [S index]])
             else if attempt \<ge> defaultMaxIndexDeleteAttempts - 1
             then (Some (''timeout waiting for index '' @ index @ '' to be deleted''), tr1)
             else verify_loop w index (attempt + 1) (tr1 @ [Sleep defaultIndexDeleteRetryInterval]))
      else (None, tr))"
  by pat_completeness auto
termination
  by (relation "measure (\<lambda>(w, index, attempt, tr). defaultMaxIndexDeleteAttempts - attempt)") auto

definition deleteIndexWithVerification ::
  "world \<Rightarrow> string \<Rightarrow> event list \<Rightarrow> error option \<times> event list" where
  "deleteIndexWithVerification w index tr =
     (case DeleteIndex w index (tr @ [Log Info ''  Deleting index: %s'' [S index]]) of
        (Some err, tr1) \<Rightarrow> (Some (''failed to delete index '' @ index @ '': '' @ err), tr1)
      | (None, tr1) \<Rightarrow> verify_loop w index 0 tr1)"

definition scaleDownDeployments ::
  "world \<Rightarrow> string \<Rightarrow> string \<Rightarrow> event list
   \<Rightarrow> (DeploymentScale list \<times> error option) \<times> event list" where
  "scaleDownDeployments w ns labelSelector tr =
     (case ScaleDownDeployments w ns labelSelector
             (tr @ [Log Info ''Scaling down deployments (selector: %s)...'' [S labelSelector]]) of
        ((scaledDeployments, Some err), tr1) \<Rightarrow>
          (([], Some (''failed to scale down deployments: '' @ err)), tr1)
      | ((scaledDeployments, None), tr1) \<Rightarrow>
          ((scaledDeployments, None),
           (if length scaledDeployments = 0
            then tr1 @ [Log Info ''No deployments found to scale down'' []]
            else tr1 @ [Log Success ''Scaled down %d deployment(s):'' [I (int (length scaledDeployments))]]
                   @ map (\<lambda>dep. Log Info ''  - %s (replicas: %d -> 0)'' [S (Name dep), I (Replicas dep)])
                       scaledDeployments)))"

fun deleteIndices_loop :: "world \<Rightarrow> string list \<Rightarrow> event list \<Rightarrow> error option \<times> event list" where
  "deleteIndices_loop w [] tr = (None, tr)"
| "deleteIndices_loop w (index # rest) tr =
     (case deleteIndexWithVerification w index tr of
        (Some err, tr1) \<Rightarrow> (Some err, tr1)
      | (None, tr1) \<Rightarrow> deleteIndices_loop w rest tr1)"

text \<open>The part of \<^verbatim>\<open>deleteIndices\<close> after the confirmation: the rollover when a
  datastream index is present, then the deletions.\<close>

definition deleteIndices_confirmed ::
  "world \<Rightarrow> string list \<Rightarrow> config \<Rightarrow> event list \<Rightarrow> error option \<times> event list" where
  "deleteIndices_confirmed w stsIndices cfg tr =
     (case (if hasDatastreamIndices stsIndices (DatastreamIndexPrefix cfg) then
              (case RolloverDatastream w (DatastreamName cfg)
                      (tr @ [Log Info (''Rolling over datastream '' @ [CHR 0x27] @ ''%s'' @ [CHR 0x27] @ ''...'')
                               [S (DatastreamName cfg)]]) of
                 (Some err, tr1) \<Rightarrow> (Some (''failed to rollover datastream: '' @ err), tr1)
               | (None, tr1) \<Rightarrow> (None, tr1 @ [Log Success ''Datastream rolled over successfully'' []]))
            else (None, tr)) of
        (Some err, tr2) \<Rightarrow> (Some err, tr2)
      | (None, tr2) \<Rightarrow>
          (case deleteIndices_loop w stsIndices
                  (tr2 @ [Log Info ''Deleting %d index(es)...'' [I (int (length stsIndices))]]) of
             (Some err, tr3) \<Rightarrow> (Some err, tr3)
           | (None, tr3) \<Rightarrow> (None, tr3 @ [Log Success ''All indices deleted successfully'' []])))"

definition deleteIndices ::
  "world \<Rightarrow> string list \<Rightarrow> config \<Rightarrow> bool \<Rightarrow> event list \<Rightarrow> error option \<times> event list" where
  "deleteIndices w stsIndices cfg skipConfirm tr =
     (if length stsIndices = 0 then (None, tr @ [Log Info ''No STS indices found to delete'' []])
      else
        (case (if \<not> skipConfirm
               then confirmDeletion w
                      (tr @ [Log Info ''Found %d STS index(es) to delete'' [I (int (length stsIndices))]]
                          @ map (\<lambda>index. Log Debug ''  - %s'' [S index]) stsIndices)
               else (None, tr @ [Log Info ''Found %d STS index(es) to delete'' [I (int (length stsIndices))]]
                          @ map (\<lambda>index. Log Debug ''  - %s'' [S index]) stsIndices)) of
           (Some err, tr1) \<Rightarrow> (Some err, tr1)
         | (None, tr1) \<Rightarrow> deleteIndices_confirmed w stsIndices cfg tr1))"

text \<open>
  \<^verbatim>\<open>runRestore\<close> registers two deferred calls, so its body is split where they are
  registered. \<open>runRestore_restore\<close> is the last part, from the snapshot lookup to the
  return.
\<close>

definition runRestore_restore :: "world \<Rightarrow> config \<Rightarrow> event list \<Rightarrow> error option \<times> event list" where
  "runRestore_restore w cfg tr =
     (case GetSnapshot w (Repository cfg) (snapshotName w)
             (tr @ [Println,
                    Log Info (''Restoring snapshot '' @ [CHR 0x27] @ ''%s'' @ [CHR 0x27]
                              @ '' from repository '' @ [CHR 0x27] @ ''%s'' @ [CHR 0x27])
                      [S (snapshotName w), S (Repository cfg)]]) of
        (Inl err, tr1) \<Rightarrow> (Some (''failed to get snapshot details: '' @ err), tr1)
      | (Inr indices, tr1) \<Rightarrow>
          (case RestoreSnapshot w (Repository cfg) (snapshotName w) (IndicesPattern cfg) True
                  (tr1 @ [Log Debug ''Indices pattern: %s'' [S (IndicesPattern cfg)]]
                       @ (if length indices = 0 then [Log Warning ''Snapshot contains no indices'' []]
                          else Log Info ''Snapshot contains %d index(es)'' [I (int (length indices))]
                               # map (\<lambda>index. Log Debug ''  - %s'' [S index]) indices)
                       @ [Log Info ''Starting restore - this may take several minutes...'' []]) of
             (Some err, tr2) \<Rightarrow> (Some (''failed to restore snapshot: '' @ err), tr2)
           | (None, tr2) \<Rightarrow> (None, tr2 @ [Println, Log Success ''Restore completed successfully'' []])))"

text \<open>
  The statements after \<^verbatim>\<open>defer close(stopChan)\<close>. The receive from the readiness channel
  returns only when the port-forward became ready; when it never does, the function does
  not return, which is the value \<^term>\<open>None\<close>.
\<close>

definition runRestore_connected ::
  "world \<Rightarrow> config \<Rightarrow> event list \<Rightarrow> (error option \<times> event list) option" where
  "runRestore_connected w cfg tr =
     (if \<not> portForwardReady w then None
      else
        (case esNewClient w of
           Some err \<Rightarrow>
             Some (Some (''failed to create Elasticsearch client: '' @ err),
                   tr @ [WaitReady, Log Success ''Port-forward established successfully'' []])
         | None \<Rightarrow>
             (case ListIndices w ''*''
                     (tr @ [WaitReady, Log Success ''Port-forward established successfully'' [],
                            Log Info ''Fetching current Elasticsearch indices...'' []]) of
                (Inl err, tr1) \<Rightarrow> Some (Some (''failed to list indices: '' @ err), tr1)
              | (Inr allIndices, tr1) \<Rightarrow>
                  (if dropAllIndices w then
                     (case deleteIndices w
                             (filterSTSIndices allIndices (IndexPrefix cfg) (DatastreamIndexPrefix cfg))
                             cfg (skipConfirmation w) (tr1 @ [Println]) of
                        (Some err, tr2) \<Rightarrow> Some (Some err, tr2)
                      | (None, tr2) \<Rightarrow> Some (runRestore_restore w cfg tr2))
                   else Some (runRestore_restore w cfg tr1)))))"

text \<open>The statements after the first \<^verbatim>\<open>defer\<close>, with the deferred
  \<^verbatim>\<open>close(stopChan)\<close> run at the return when it was registered.\<close>

definition runRestore_paused ::
  "world \<Rightarrow> config \<Rightarrow> event list \<Rightarrow> (error option \<times> event list) option" where
  "runRestore_paused w cfg tr =
     (case portForwardService w of
        Some err \<Rightarrow>
          Some (Some (''failed to setup port-forward: '' @ err),
                tr @ [Log Info ''Setting up port-forward to %s:%d in namespace %s...''
                        [S (ServiceName cfg), I (Port cfg), S (Namespace w)],
                      PortForwardService (Namespace w) (ServiceName cfg) (LocalPortForwardPort cfg) (Port cfg)])
      | None \<Rightarrow>
          (case runRestore_connected w cfg
                  (tr @ [Log Info ''Setting up port-forward to %s:%d in namespace %s...''
                           [S (ServiceName cfg), I (Port cfg), S (Namespace w)],
                         PortForwardService (Namespace w) (ServiceName cfg) (LocalPortForwardPort cfg) (Port cfg)]) of
             None \<Rightarrow> None
           | Some (r, tr1) \<Rightarrow> Some (r, tr1 @ [CloseStopChan])))"

text \<open>The first deferred function: the scale-up, run only when the captured list is not
  empty; its failure is handed to \<^verbatim>\<open>log.Warningf\<close> and changes nothing else. Whether the
  logger writes the warning is decided by \<open>Logger_output\<close>.\<close>

definition resumeAnnounced :: event where
  "resumeAnnounced = Log Info ''Scaling up deployments back to original replica counts...'' []"

definition deferred_scaleUp :: "world \<Rightarrow> DeploymentScale list \<Rightarrow> event list \<Rightarrow> event list" where
  "deferred_scaleUp w scaledDeployments tr =
     (if length scaledDeployments > 0 then
        (case ScaleUpDeployments w (Namespace w) scaledDeployments (tr @ [Println, resumeAnnounced]) of
           (Some err, tr1) \<Rightarrow> tr1 @ [Log Warning ''Failed to scale up deployments: %v'' [S err]]
         | (None, tr1) \<Rightarrow>
             tr1 @ [Log Success ''Scaled up %d deployment(s) successfully:''
                      [I (int (length scaledDeployments))]]
                 @ map (\<lambda>dep. Log Info ''  - %s (replicas: 0 -> %d)'' [S (Name dep), I (Replicas dep)])
                     scaledDeployments)
      else tr)"

definition runRestore :: "world \<Rightarrow> (error option \<times> event list) option" where
  "runRestore w =
     (case k8sNewClient w of
        Some err \<Rightarrow> Some (Some (''failed to create Kubernetes client: '' @ err), [])
      | None \<Rightarrow>
          (case LoadConfig w of
             Inl err \<Rightarrow> Some (Some (''failed to load configuration: '' @ err), [])
           | Inr cfg \<Rightarrow>
               (case scaleDownDeployments w (Namespace w) (ScaleDownLabelSelector cfg) [] of
                  ((scaledDeployments, Some err), tr) \<Rightarrow> Some (Some err, tr)
                | ((scaledDeployments, None), tr) \<Rightarrow>
                    (case runRestore_paused w cfg tr of
                       None \<Rightarrow> None
                     | Some (r, tr1) \<Rightarrow> Some (r, deferred_scaleUp w scaledDeployments tr1)))))"

text \<open>The \<^verbatim>\<open>Run\<close> function of \<^verbatim>\<open>restoreCmd\<close>: an error is printed and the process exits
  with status 1; otherwise the command returns and the status is 0.\<close>

definition restoreCmd :: "world \<Rightarrow> (int \<times> event list) option" where
  "restoreCmd w =
     (case runRestore w of
        None \<Rightarrow> None
      | Some (Some err, tr) \<Rightarrow> Some (1, tr @ [Stderr (''error: '' @ err @ [newline])])
      | Some (None, tr) \<Rightarrow> Some (0, tr))"

subsection \<open>Concrete worlds\<close>

definition cfg0 :: config where
  "cfg0 = \<lparr>ScaleDownLabelSelector = ''restore=scale-down'', ServiceName = ''es-master'',
           LocalPortForwardPort = 9200, Port = 9200, Repository = ''sts-backup'',
           IndexPrefix = ''sts_'', DatastreamIndexPrefix = ''sts_k8s_logs'',
           DatastreamName = ''sts_k8s_logs'', IndicesPattern = ''sts_*''\<rparr>"

text \<open>A world in which every call succeeds: two deployments \<open>a\<close> (3 replicas) and \<open>b\<close>
  (5 replicas) match the selector, one managed index exists and is gone at the first
  probe after its deletion, and the user answers \<open>yes\<close>. The logger is neither quiet
  nor in debug mode. Of the case table only the Kelvin sign, the dotted capital I and
  the capital letters of Latin-1 are given; no other code point above U+007F is changed.\<close>

definition world0 :: world where
  "world0 = \<lparr>Namespace = ''ns'', Quiet = False, DebugFlag = False,
             snapshotName = ''snap-1'', dropAllIndices = True,
             skipConfirmation = False, stdin = ''yes'' @ [newline],
             caseTable = (\<lambda>r. if r = 0x212A then 0x6B else if r = 0x130 then 0x69
                               else if 0xC0 \<le> r \<and> r \<le> 0xDE \<and> r \<noteq> 0xD7 then r + 32 else r),
             k8sNewClient = None, LoadConfig = Inr cfg0,
             deploymentsList = (\<lambda>sel. Inr [\<lparr>depName = ''a'', specReplicas = Some 3\<rparr>,
                                           \<lparr>depName = ''b'', specReplicas = Some 5\<rparr>]),
             deploymentsGet = (\<lambda>n. None), deploymentsUpdate = (\<lambda>n r. None),
             portForwardService = None, portForwardReady = True, esNewClient = None,
             catIndices = Inr [''sts_topology'', ''other_index''],
             indicesDelete = (\<lambda>i. Response 200 ''[200 OK]''),
             indicesExists = (\<lambda>i n. Response 404 ''[404 Not Found]''),
             indicesRollover = (\<lambda>d. Response 200 ''[200 OK]''),
             snapshotGet = Inr [''sts_topology''],
             snapshotRestore = Response 200 ''[200 OK]''\<rparr>"

text \<open>The index never disappears.\<close>

definition world_stuck :: world where
  "world_stuck = world0\<lparr>indicesExists := (\<lambda>i n. Response 200 ''[200 OK]'')\<rparr>"

text \<open>The index is reported present four times and absent from the fifth probe on.\<close>

definition world_fifth :: world where
  "world_fifth = world0\<lparr>indicesExists :=
     (\<lambda>i n. if n < 4 then Response 200 ''[200 OK]'' else Response 404 ''[404 Not Found]'')\<rparr>"

text \<open>Scaling \<open>b\<close> down is rejected by the cluster.\<close>

definition world_pause_fails :: world where
  "world_pause_fails = world0\<lparr>deploymentsUpdate :=
     (\<lambda>n r. if n = ''b'' \<and> r = 0 then Some ''conflict'' else None)\<rparr>"

text \<open>No deployment can be fetched any more when the scale-up runs.\<close>

definition world_get_fails :: world where
  "world_get_fails = world0\<lparr>deploymentsGet := (\<lambda>n. Some ''not found'')\<rparr>"

text \<open>The user answers \<open>no\<close>.\<close>

definition world_declines :: world where
  "world_declines = world0\<lparr>stdin := ''no'' @ [newline]\<rparr>"

text \<open>The user answers \<open>YeS\<close> with a blank before it and a no-break space (U+00A0,
  the bytes C2 A0) and an ideographic space (U+3000, the bytes E3 80 80) after it.\<close>

definition world_agrees :: world where
  "world_agrees = world0\<lparr>stdin := '' YeS'' @ [CHR 0xC2, CHR 0xA0, CHR 0xE3, CHR 0x80, CHR 0x80]
                                    @ [newline] @ ''more''\<rparr>"

text \<open>The input ends after \<open>yes\<close>, and after \<open>no\<close>, without a newline.\<close>

definition world_yes_eof :: world where
  "world_yes_eof = world0\<lparr>stdin := ''yes''\<rparr>"

definition world_no_eof :: world where
  "world_no_eof = world0\<lparr>stdin := ''no''\<rparr>"

text \<open>The scale-up fails and the logger is quiet.\<close>

definition world_get_fails_quiet :: world where
  "world_get_fails_quiet = world_get_fails\<lparr>Quiet := True\<rparr>"

subsection \<open>Vocabulary for the statements\<close>

text \<open>The two cluster calls that restore one entry, and the worlds in which both succeed.\<close>

definition restoreCalls :: "string \<Rightarrow> DeploymentScale \<Rightarrow> event list" where
  "restoreCalls ns s = [K8sGet ns (Name s), K8sUpdate ns (Name s) (Replicas s)]"

definition restorable :: "world \<Rightarrow> DeploymentScale \<Rightarrow> bool" where
  "restorable w s =
     (deploymentsGet w (Name s) = None \<and> deploymentsUpdate w (Name s) (Replicas s) = None)"

text \<open>The prompt of \<open>confirmDeletion\<close>, and the events \<open>deleteIndices\<close> produces up
  to the moment the answer has been read.\<close>

definition confirmPrompt :: "event list" where
  "confirmPrompt =
     [Print (newline # ''Are you sure you want to delete these indices? (yes/no): ''), ReadStdin]"

definition foundIndices :: "string list \<Rightarrow> event list" where
  "foundIndices stsIndices =
     Log Info ''Found %d STS index(es) to delete'' [I (int (length stsIndices))]
     # map (\<lambda>index. Log Debug ''  - %s'' [S index]) stsIndices"

text \<open>The image of one code point under \<open>ToLower\<close>: its lower case, written as
  \<open>RuneError\<close> when that is no valid code point.\<close>

definition lowered :: "world \<Rightarrow> nat \<Rightarrow> nat" where
  "lowered w r = (if ValidRune (ToLowerRune w r) then ToLowerRune w r else RuneError)"

text \<open>
  What it means, said without the library, that the lowercased and trimmed form of a
  sequence of code points is \<open>yes\<close> or \<open>y\<close>. \<open>whiteSpace\<close> lists the code points with
  the Unicode property \<open>White_Space\<close>. A code point is the letter \<open>y\<close>, in either case,
  when it is U+0079 or U+0059; above U+007F the case table decides (in Unicode it maps
  no code point to \<open>y\<close>, \<open>e\<close>, \<open>s\<close> or to white space, and leaves white space
  alone). The sequence is affirmative when it is \<open>y\<close> or \<open>yes\<close>, in any mix of cases,
  between two runs of white space.
\<close>

definition whiteSpace :: "nat \<Rightarrow> bool" where
  "whiteSpace r = (r \<in> set [0x09, 0x0A, 0x0B, 0x0C, 0x0D, 0x20, 0x85, 0xA0, 0x1680,
                             0x2000, 0x2001, 0x2002, 0x2003, 0x2004, 0x2005, 0x2006, 0x2007,
                             0x2008, 0x2009, 0x200A, 0x2028, 0x2029, 0x202F, 0x205F, 0x3000])"

definition blank :: "world \<Rightarrow> nat \<Rightarrow> bool" where
  "blank w r = (if r \<le> 0x7F then whiteSpace r else whiteSpace (caseTable w r))"

definition letter :: "world \<Rightarrow> nat \<Rightarrow> nat \<Rightarrow> nat \<Rightarrow> bool" where
  "letter w small capital r = (r = small \<or> r = capital \<or> (0x7F < r \<and> caseTable w r = small))"

definition affirmative :: "world \<Rightarrow> nat list \<Rightarrow> bool" where
  "affirmative w rs =
     (\<exists>pre tok post. rs = pre @ tok @ post
        \<and> list_all (blank w) pre \<and> list_all (blank w) post
        \<and> ((\<exists>c. tok = [c] \<and> letter w 0x79 0x59 c)
           \<or> (\<exists>c1 c2 c3. tok = [c1, c2, c3] \<and> letter w 0x79 0x59 c1
                  \<and> letter w 0x65 0x45 c2 \<and> letter w 0x73 0x53 c3)))"

text \<open>The events that announce the scale-up in the deferred function; there is one kind,
  \<^term>\<open>resumeAnnounced\<close>, logged immediately before \<open>ScaleUpDeployments\<close> is called.\<close>

fun announces :: "event \<Rightarrow> bool" where
  "announces (Log l f a) =
     (l = Info \<and> f = ''Scaling up deployments back to original replica counts...'' \<and> a = [])"
| "announces _ = False"

section \<open>Properties of the pure part\<close>

lemma HasPrefix_prefix: "HasPrefix s p = prefix p s"
  unfolding HasPrefix_def
proof
  assume "length p \<le> length s \<and> take (length p) s = p"
  then have "s = p @ drop (length p) s"
    by (metis append_take_drop_id)
  then show "prefix p s"
    by (metis prefixI)
next
  assume "prefix p s"
  then obtain r where "s = p @ r"
    by (auto simp: prefix_def)
  then show "length p \<le> length s \<and> take (length p) s = p"
    by simp
qed

lemma filterSTSIndices_loop_filter:
  "filterSTSIndices_loop xs ip dp acc = acc @ filter (\<lambda>i. HasPrefix i ip \<or> HasPrefix i dp) xs"
  by (induction xs arbitrary: acc) simp_all

text \<open>
  C7. For every list of index names and every pair of prefixes, \<open>filterSTSIndices\<close>
  returns exactly the names that start with the index prefix or with the datastream
  prefix, in the order of the input; the empty list gives the empty list. The function is
  a pure function of its three arguments.
\<close>

theorem filterSTSIndices_exact:
  "filterSTSIndices allIndices ip dp = filter (\<lambda>i. prefix ip i \<or> prefix dp i) allIndices
   \<and> filterSTSIndices [] ip dp = []"
  by (simp add: filterSTSIndices_def filterSTSIndices_loop_filter HasPrefix_prefix)

theorem filterSTSIndices_exact_witness:
  "filterSTSIndices [''sts_topology'', ''sts_metrics'', ''sts_k8s_logs-000001'', ''other_index'']
      ''sts_'' ''sts_k8s_logs''
   = [''sts_topology'', ''sts_metrics'', ''sts_k8s_logs-000001'']"
  using filterSTSIndices_exact
    [of "[''sts_topology'', ''sts_metrics'', ''sts_k8s_logs-000001'', ''other_index'']"
        "''sts_''" "''sts_k8s_logs''"]
  by (simp add: prefix_def)

lemma hasDatastreamIndices_iff:
  "hasDatastreamIndices indices dp = (\<exists>i \<in> set indices. prefix (dp @ ''-'') i)"
  by (induction indices) (simp_all add: HasPrefix_prefix)

text \<open>
  C8. \<open>hasDatastreamIndices\<close> is true if and only if some element starts with the
  datastream prefix immediately followed by a dash. A list holding only the bare prefix
  gives false; a list holding the prefix followed by \<open>-000001\<close> gives true.
\<close>

theorem hasDatastreamIndices_dash:
  "hasDatastreamIndices indices dp = (\<exists>i \<in> set indices. prefix (dp @ ''-'') i)
   \<and> hasDatastreamIndices [dp] dp = False
   \<and> hasDatastreamIndices [dp @ ''-000001''] dp = True"
  by (simp add: hasDatastreamIndices_iff)

theorem hasDatastreamIndices_dash_witness:
  "hasDatastreamIndices [''sts_topology'', ''sts_k8s_logs-000001''] ''sts_k8s_logs''
   \<and> \<not> hasDatastreamIndices [''sts_k8s_logs''] ''sts_k8s_logs''
   \<and> hasDatastreamIndices [''sts_k8s_logs-000001''] ''sts_k8s_logs''"
  using hasDatastreamIndices_dash [of "[''sts_topology'', ''sts_k8s_logs-000001'']" "''sts_k8s_logs''"]
  by (simp add: HasPrefix_def)



section \<open>The deletion-verification loop\<close>


declare verify_loop.simps [simp del]

lemma verify_loop_step:
  assumes "attempt < defaultMaxIndexDeleteAttempts - 1"
      and "IndexExists_of (indicesExists w index (count_list tr (EsIndexExists index))) = (True, None)"
  shows "verify_loop w index attempt tr =
         verify_loop w index (Suc attempt)
           (tr @ [EsIndexExists index, Sleep defaultIndexDeleteRetryInterval])"
  using assms
  by (subst verify_loop.simps) (simp add: IndexExists_def defaultMaxIndexDeleteAttempts_def)

lemma count_checks_replicate:
  "count_list (concat (replicate k [EsIndexExists index, Sleep d])) (EsIndexExists index) = k"
  by (induction k) simp_all

lemma count_sleeps_replicate:
  "count_list (concat (replicate k [EsIndexExists index, Sleep d])) (Sleep d) = k"
  by (induction k) simp_all

lemma verify_loop_present:
  assumes "attempt + k \<le> defaultMaxIndexDeleteAttempts - 1"
      and "\<forall>i<k. IndexExists_of (indicesExists w index (count_list tr (EsIndexExists index) + i)) = (True, None)"
  shows "verify_loop w index attempt tr =
         verify_loop w index (attempt + k)
           (tr @ concat (replicate k [EsIndexExists index, Sleep defaultIndexDeleteRetryInterval]))"
  using assms
proof (induction k arbitrary: attempt tr)
  case 0
  then show ?case by simp
next
  case (Suc k)
  have here: "IndexExists_of (indicesExists w index (count_list tr (EsIndexExists index))) = (True, None)"
    using Suc.prems(2) by (metis add.right_neutral zero_less_Suc)
  have lt: "attempt < defaultMaxIndexDeleteAttempts - 1"
    using Suc.prems(1) by simp
  let ?tr = "tr @ [EsIndexExists index, Sleep defaultIndexDeleteRetryInterval]"
  have later: "\<forall>i<k. IndexExists_of (indicesExists w index (count_list ?tr (EsIndexExists index) + i)) = (True, None)"
  proof (intro allI impI)
    fix i assume "i < k"
    then have "Suc i < Suc k" by simp
    with Suc.prems(2)
    have "IndexExists_of (indicesExists w index (count_list tr (EsIndexExists index) + Suc i)) = (True, None)"
      by blast
    then show "IndexExists_of (indicesExists w index (count_list ?tr (EsIndexExists index) + i)) = (True, None)"
      by simp
  qed
  have "verify_loop w index attempt tr = verify_loop w index (Suc attempt) ?tr"
    by (rule verify_loop_step [OF lt here])
  also have "\<dots> = verify_loop w index (Suc attempt + k)
       (?tr @ concat (replicate k [EsIndexExists index, Sleep defaultIndexDeleteRetryInterval]))"
    using Suc.prems(1) later by (intro Suc.IH) simp_all
  finally show ?case by simp
qed

lemma verify_loop_last_present:
  assumes "Suc attempt = defaultMaxIndexDeleteAttempts"
      and "IndexExists_of (indicesExists w index (count_list tr (EsIndexExists index))) = (True, None)"
  shows "verify_loop w index attempt tr =
         (Some (''timeout waiting for index '' @ index @ '' to be deleted''), tr @ [EsIndexExists index])"
  using assms
  by (subst verify_loop.simps) (auto simp add: IndexExists_def)

lemma verify_loop_absent:
  assumes "attempt < defaultMaxIndexDeleteAttempts"
      and "IndexExists_of (indicesExists w index (count_list tr (EsIndexExists index))) = (False, None)"
  shows "verify_loop w index attempt tr =
         (None, tr @ [EsIndexExists index, Log Debug ''Index successfully deleted: %s'' [S index]])"
  using assms
  by (subst verify_loop.simps) (simp add: IndexExists_def)


text \<open>
  C5. When the delete call succeeds and every existence check reports the index present,
  \<open>deleteIndexWithVerification\<close> makes exactly \<open>defaultMaxIndexDeleteAttempts\<close> = 30
  existence checks (29 of them followed by a sleep, the last one not) and returns the
  timeout error for that index.
\<close>

theorem deleteIndexWithVerification_timeout:
  assumes del: "checkResponse ''failed to delete index: '' (indicesDelete w index) = None"
      and present: "\<forall>n. IndexExists_of (indicesExists w index n) = (True, None)"
  shows "deleteIndexWithVerification w index tr =
           (Some (''timeout waiting for index '' @ index @ '' to be deleted''),
            tr @ [Log Info ''  Deleting index: %s'' [S index], EsDeleteIndex index]
               @ concat (replicate (defaultMaxIndexDeleteAttempts - 1)
                           [EsIndexExists index, Sleep defaultIndexDeleteRetryInterval])
               @ [EsIndexExists index])
         \<and> count_list (snd (deleteIndexWithVerification w index tr)) (EsIndexExists index)
             = count_list tr (EsIndexExists index) + defaultMaxIndexDeleteAttempts
         \<and> defaultMaxIndexDeleteAttempts = 30"
proof -
  let ?tr1 = "tr @ [Log Info ''  Deleting index: %s'' [S index], EsDeleteIndex index]"
  let ?tr2 = "?tr1 @ concat (replicate (defaultMaxIndexDeleteAttempts - 1)
                           [EsIndexExists index, Sleep defaultIndexDeleteRetryInterval])"
  have "verify_loop w index 0 ?tr1 = verify_loop w index (0 + (defaultMaxIndexDeleteAttempts - 1)) ?tr2"
    using present by (intro verify_loop_present) simp_all
  also have "\<dots> = (Some (''timeout waiting for index '' @ index @ '' to be deleted''), ?tr2 @ [EsIndexExists index])"
  proof (rule verify_loop_last_present)
    show "Suc (0 + (defaultMaxIndexDeleteAttempts - 1)) = defaultMaxIndexDeleteAttempts"
      by (simp add: defaultMaxIndexDeleteAttempts_def)
    show "IndexExists_of (indicesExists w index (count_list ?tr2 (EsIndexExists index))) = (True, None)"
      using present by blast
  qed
  finally have loop: "verify_loop w index 0 ?tr1 =
      (Some (''timeout waiting for index '' @ index @ '' to be deleted''), ?tr2 @ [EsIndexExists index])" .
  have res: "deleteIndexWithVerification w index tr =
      (Some (''timeout waiting for index '' @ index @ '' to be deleted''), ?tr2 @ [EsIndexExists index])"
    using del loop by (simp add: deleteIndexWithVerification_def DeleteIndex_def)
  have cnt: "count_list (?tr2 @ [EsIndexExists index]) (EsIndexExists index)
      = count_list tr (EsIndexExists index) + defaultMaxIndexDeleteAttempts"
  proof -
    have "0 < defaultMaxIndexDeleteAttempts"
      by (simp add: defaultMaxIndexDeleteAttempts_def)
    then show ?thesis
      by (simp add: count_checks_replicate)
  qed
  have thirty: "defaultMaxIndexDeleteAttempts = 30"
    by (simp add: defaultMaxIndexDeleteAttempts_def)
  show ?thesis
  proof (intro conjI)
    show "deleteIndexWithVerification w index tr =
           (Some (''timeout waiting for index '' @ index @ '' to be deleted''),
            tr @ [Log Info ''  Deleting index: %s'' [S index], EsDeleteIndex index]
               @ concat (replicate (defaultMaxIndexDeleteAttempts - 1)
                           [EsIndexExists index, Sleep defaultIndexDeleteRetryInterval])
               @ [EsIndexExists index])"
      using res by (simp only: append_assoc)
    show "count_list (snd (deleteIndexWithVerification w index tr)) (EsIndexExists index)
             = count_list tr (EsIndexExists index) + defaultMaxIndexDeleteAttempts"
      using cnt by (simp only: res snd_conv)
    show "defaultMaxIndexDeleteAttempts = 30"
      by (rule thirty)
  qed
qed

theorem deleteIndexWithVerification_timeout_witness:
  "fst (deleteIndexWithVerification world_stuck ''sts_topology'' [])
     = Some ''timeout waiting for index sts_topology to be deleted''
   \<and> count_list (snd (deleteIndexWithVerification world_stuck ''sts_topology'' []))
        (EsIndexExists ''sts_topology'') = 30"
proof -
  have del: "checkResponse ''failed to delete index: '' (indicesDelete world_stuck ''sts_topology'') = None"
    by (simp add: world_stuck_def world0_def checkResponse_def IsError_def)
  have present: "\<forall>n. IndexExists_of (indicesExists world_stuck ''sts_topology'' n) = (True, None)"
    by (simp add: world_stuck_def world0_def StatusNotFound_def IsError_def)
  note t = deleteIndexWithVerification_timeout [OF del present, of "[]"]
  have r: "fst (deleteIndexWithVerification world_stuck ''sts_topology'' [])
     = Some ''timeout waiting for index sts_topology to be deleted''"
    using conjunct1 [OF t] by simp
  have c: "count_list (snd (deleteIndexWithVerification world_stuck ''sts_topology'' []))
        (EsIndexExists ''sts_topology'') = 30"
    using conjunct2 [OF t] by simp
  show ?thesis
    using r c by (rule conjI)
qed

text \<open>
  C6. With the constants of the code (at most 30 attempts, one second between them): when
  the delete call succeeds, the first four existence checks report the index present and
  the fifth reports it absent, \<open>deleteIndexWithVerification\<close> returns success after
  exactly five existence checks and exactly four sleeps; nothing is checked after the
  fifth.
\<close>

theorem deleteIndexWithVerification_fifth_check:
  assumes del: "checkResponse ''failed to delete index: '' (indicesDelete w index) = None"
      and present: "\<forall>i<4. IndexExists_of (indicesExists w index (count_list tr (EsIndexExists index) + i)) = (True, None)"
      and absent: "IndexExists_of (indicesExists w index (count_list tr (EsIndexExists index) + 4)) = (False, None)"
  shows "deleteIndexWithVerification w index tr =
           (None,
            tr @ [Log Info ''  Deleting index: %s'' [S index], EsDeleteIndex index]
               @ concat (replicate 4 [EsIndexExists index, Sleep defaultIndexDeleteRetryInterval])
               @ [EsIndexExists index, Log Debug ''Index successfully deleted: %s'' [S index]])
         \<and> count_list (snd (deleteIndexWithVerification w index tr)) (EsIndexExists index)
             = count_list tr (EsIndexExists index) + 5
         \<and> count_list (snd (deleteIndexWithVerification w index tr)) (Sleep defaultIndexDeleteRetryInterval)
             = count_list tr (Sleep defaultIndexDeleteRetryInterval) + 4
         \<and> defaultMaxIndexDeleteAttempts = 30 \<and> defaultIndexDeleteRetryInterval = 1"
proof -
  let ?tr1 = "tr @ [Log Info ''  Deleting index: %s'' [S index], EsDeleteIndex index]"
  let ?tr2 = "?tr1 @ concat (replicate 4 [EsIndexExists index, Sleep defaultIndexDeleteRetryInterval])"
  have c1: "count_list ?tr1 (EsIndexExists index) = count_list tr (EsIndexExists index)"
    by simp
  have c2: "count_list ?tr2 (EsIndexExists index) = count_list tr (EsIndexExists index) + 4"
    by (simp add: count_checks_replicate)
  have "verify_loop w index 0 ?tr1 = verify_loop w index (0 + 4) ?tr2"
  proof (rule verify_loop_present)
    show "0 + 4 \<le> defaultMaxIndexDeleteAttempts - 1"
      by (simp add: defaultMaxIndexDeleteAttempts_def)
    show "\<forall>i<4. IndexExists_of (indicesExists w index (count_list ?tr1 (EsIndexExists index) + i)) = (True, None)"
      using present by (simp only: c1)
  qed
  also have "\<dots> = (None, ?tr2 @ [EsIndexExists index, Log Debug ''Index successfully deleted: %s'' [S index]])"
  proof (rule verify_loop_absent)
    show "0 + 4 < defaultMaxIndexDeleteAttempts"
      by (simp add: defaultMaxIndexDeleteAttempts_def)
    show "IndexExists_of (indicesExists w index (count_list ?tr2 (EsIndexExists index))) = (False, None)"
      using absent by (simp only: c2)
  qed
  finally have loop: "verify_loop w index 0 ?tr1 =
      (None, ?tr2 @ [EsIndexExists index, Log Debug ''Index successfully deleted: %s'' [S index]])" .
  have res: "deleteIndexWithVerification w index tr =
      (None, ?tr2 @ [EsIndexExists index, Log Debug ''Index successfully deleted: %s'' [S index]])"
    using del loop by (simp add: deleteIndexWithVerification_def DeleteIndex_def)
  have checks: "count_list (?tr2 @ [EsIndexExists index, Log Debug ''Index successfully deleted: %s'' [S index]])
       (EsIndexExists index) = count_list tr (EsIndexExists index) + 5"
    using c2 by simp
  have sleeps: "count_list (?tr2 @ [EsIndexExists index, Log Debug ''Index successfully deleted: %s'' [S index]])
       (Sleep defaultIndexDeleteRetryInterval) = count_list tr (Sleep defaultIndexDeleteRetryInterval) + 4"
    by (simp only: count_list_append count_sleeps_replicate) simp
  show ?thesis
  proof (intro conjI)
    show "deleteIndexWithVerification w index tr =
           (None,
            tr @ [Log Info ''  Deleting index: %s'' [S index], EsDeleteIndex index]
               @ concat (replicate 4 [EsIndexExists index, Sleep defaultIndexDeleteRetryInterval])
               @ [EsIndexExists index, Log Debug ''Index successfully deleted: %s'' [S index]])"
      using res by (simp only: append_assoc)
    show "count_list (snd (deleteIndexWithVerification w index tr)) (EsIndexExists index)
             = count_list tr (EsIndexExists index) + 5"
      using checks by (simp only: res snd_conv)
    show "count_list (snd (deleteIndexWithVerification w index tr)) (Sleep defaultIndexDeleteRetryInterval)
             = count_list tr (Sleep defaultIndexDeleteRetryInterval) + 4"
      using sleeps by (simp only: res snd_conv)
    show "defaultMaxIndexDeleteAttempts = 30"
      by (simp add: defaultMaxIndexDeleteAttempts_def)
    show "defaultIndexDeleteRetryInterval = 1"
      by (simp add: defaultIndexDeleteRetryInterval_def)
  qed
qed

theorem deleteIndexWithVerification_fifth_check_witness:
  "deleteIndexWithVerification world_fifth ''sts_topology'' [] =
     (None,
      [Log Info ''  Deleting index: %s'' [S ''sts_topology''], EsDeleteIndex ''sts_topology'',
       EsIndexExists ''sts_topology'', Sleep 1, EsIndexExists ''sts_topology'', Sleep 1,
       EsIndexExists ''sts_topology'', Sleep 1, EsIndexExists ''sts_topology'', Sleep 1,
       EsIndexExists ''sts_topology'', Log Debug ''Index successfully deleted: %s'' [S ''sts_topology'']])"
proof -
  have del: "checkResponse ''failed to delete index: '' (indicesDelete world_fifth ''sts_topology'') = None"
    by (simp add: world_fifth_def world0_def checkResponse_def IsError_def)
  have present: "\<forall>i<4. IndexExists_of (indicesExists world_fifth ''sts_topology''
       (count_list [] (EsIndexExists ''sts_topology'') + i)) = (True, None)"
    by (simp add: world_fifth_def world0_def StatusNotFound_def IsError_def)
  have absent: "IndexExists_of (indicesExists world_fifth ''sts_topology''
       (count_list [] (EsIndexExists ''sts_topology'') + 4)) = (False, None)"
    by (simp add: world_fifth_def world0_def StatusNotFound_def IsError_def)
  show ?thesis
    using deleteIndexWithVerification_fifth_check [OF del present absent]
    by (simp add: defaultIndexDeleteRetryInterval_def numeral_eq_Suc)
qed

section \<open>Pausing and resuming the workloads\<close>

lemma ScaleDown_loop_partial:
  assumes "\<forall>p\<in>set pre. 0 < originalReplicas p \<longrightarrow> deploymentsUpdate w (depName p) 0 = None"
      and "0 < originalReplicas d"
      and "deploymentsUpdate w (depName d) 0 = Some err"
  shows "ScaleDown_loop w ns (pre @ d # post) acc tr =
           ((acc @ map scaleOf (pre @ [d]),
             Some (''failed to scale down deployment '' @ depName d @ '': '' @ err)),
            tr @ map (\<lambda>p. K8sUpdate ns (depName p) 0)
                   (filter (\<lambda>p. 0 < originalReplicas p) (pre @ [d])))"
  using assms
proof (induction pre arbitrary: acc tr)
  case Nil
  then show ?case by simp
next
  case (Cons p pre)
  show ?case
  proof (cases "0 < originalReplicas p")
    case True
    with Cons.prems have "deploymentsUpdate w (depName p) 0 = None" by simp
    with True Cons.prems Cons.IH [of "acc @ [scaleOf p]" "tr @ [K8sUpdate ns (depName p) 0]"]
    show ?thesis by simp
  next
    case False
    with Cons.prems Cons.IH [of "acc @ [scaleOf p]" tr]
    show ?thesis by simp
  qed
qed

text \<open>
  C3. When, in \<open>ScaleDownDeployments\<close>, the update that scales a deployment to zero
  fails, the call stops there: no later deployment is touched, and it returns the error
  together with the entries captured so far, in the order of the listing. The captured
  entries are those of the deployments before the failing one and that of the failing
  one itself, whose count was recorded before the update was tried.
\<close>

theorem ScaleDownDeployments_partial:
  assumes "deploymentsList w labelSelector = Inr (pre @ d # post)"
      and "\<forall>p\<in>set pre. 0 < originalReplicas p \<longrightarrow> deploymentsUpdate w (depName p) 0 = None"
      and "0 < originalReplicas d"
      and "deploymentsUpdate w (depName d) 0 = Some err"
  shows "ScaleDownDeployments w ns labelSelector tr =
           ((map scaleOf (pre @ [d]),
             Some (''failed to scale down deployment '' @ depName d @ '': '' @ err)),
            tr @ K8sList ns labelSelector
                 # map (\<lambda>p. K8sUpdate ns (depName p) 0)
                     (filter (\<lambda>p. 0 < originalReplicas p) (pre @ [d])))"
  using assms(1) ScaleDown_loop_partial [OF assms(2-4), of ns post "[]" "tr @ [K8sList ns labelSelector]"]
  by (simp add: ScaleDownDeployments_def)

theorem ScaleDownDeployments_partial_witness:
  "ScaleDownDeployments world_pause_fails ''ns'' ''restore=scale-down'' [] =
     (([\<lparr>Name = ''a'', Replicas = 3\<rparr>, \<lparr>Name = ''b'', Replicas = 5\<rparr>],
       Some ''failed to scale down deployment b: conflict''),
      [K8sList ''ns'' ''restore=scale-down'', K8sUpdate ''ns'' ''a'' 0, K8sUpdate ''ns'' ''b'' 0])"
proof -
  let ?a = "\<lparr>depName = ''a'', specReplicas = Some 3\<rparr>"
  let ?b = "\<lparr>depName = ''b'', specReplicas = Some 5\<rparr>"
  have l: "deploymentsList world_pause_fails ''restore=scale-down'' = Inr ([?a] @ ?b # [])"
    by (simp add: world_pause_fails_def world0_def)
  have p: "\<forall>p\<in>set [?a]. 0 < originalReplicas p \<longrightarrow> deploymentsUpdate world_pause_fails (depName p) 0 = None"
    by (simp add: world_pause_fails_def world0_def)
  have d: "0 < originalReplicas ?b"
    by (simp add: originalReplicas_def)
  have u: "deploymentsUpdate world_pause_fails (depName ?b) 0 = Some ''conflict''"
    by (simp add: world_pause_fails_def world0_def)
  show ?thesis
    using ScaleDownDeployments_partial [OF l p d u, of "''ns''" "[]"]
    by (simp add: scaleOf_def originalReplicas_def)
qed

lemma ScaleUpDeployments_all:
  assumes "\<forall>s\<in>set scales. restorable w s"
  shows "ScaleUpDeployments w ns scales tr = (None, tr @ concat (map (restoreCalls ns) scales))"
  using assms
proof (induction scales arbitrary: tr)
  case Nil
  then show ?case by simp
next
  case (Cons s scales)
  then show ?case
    by (simp add: restorable_def restoreCalls_def)
qed

lemma ScaleUpDeployments_prefix:
  assumes "\<forall>s\<in>set pre. restorable w s"
  shows "ScaleUpDeployments w ns (pre @ rest) tr =
         ScaleUpDeployments w ns rest (tr @ concat (map (restoreCalls ns) pre))"
  using assms
proof (induction pre arbitrary: tr)
  case Nil
  then show ?case by simp
next
  case (Cons s pre)
  then show ?case
    by (simp add: restorable_def restoreCalls_def)
qed

text \<open>
  C2, as the code has it. \<open>ScaleUpDeployments\<close> restores the entries in order and stops
  at the first entry whose fetch or update fails: the entries after it are not
  attempted, and the error returned is that one failure, carrying the name of the
  deployment. When no entry fails, every entry is fetched and updated and no error is
  returned.
\<close>

theorem ScaleUpDeployments_first_failure:
  "((\<forall>s\<in>set scales. restorable w s) \<longrightarrow>
      ScaleUpDeployments w ns scales tr = (None, tr @ concat (map (restoreCalls ns) scales)))
   \<and> ((\<forall>s\<in>set pre. restorable w s) \<and> deploymentsGet w (Name s) = Some err \<longrightarrow>
      ScaleUpDeployments w ns (pre @ s # post) tr =
        (Some (''failed to get deployment '' @ Name s @ '': '' @ err),
         tr @ concat (map (restoreCalls ns) pre) @ [K8sGet ns (Name s)]))
   \<and> ((\<forall>s\<in>set pre. restorable w s) \<and> deploymentsGet w (Name s) = None
        \<and> deploymentsUpdate w (Name s) (Replicas s) = Some err \<longrightarrow>
      ScaleUpDeployments w ns (pre @ s # post) tr =
        (Some (''failed to scale up deployment '' @ Name s @ '': '' @ err),
         tr @ concat (map (restoreCalls ns) pre) @ restoreCalls ns s))"
  by (simp add: ScaleUpDeployments_all ScaleUpDeployments_prefix restoreCalls_def)

theorem ScaleUpDeployments_first_failure_witness:
  "ScaleUpDeployments
      (world0\<lparr>deploymentsUpdate := (\<lambda>n r. if n = ''b'' \<and> r = 5 then Some ''conflict'' else None)\<rparr>)
      ''ns'' [\<lparr>Name = ''a'', Replicas = 3\<rparr>, \<lparr>Name = ''b'', Replicas = 5\<rparr>, \<lparr>Name = ''c'', Replicas = 1\<rparr>] []
   = (Some ''failed to scale up deployment b: conflict'',
      [K8sGet ''ns'' ''a'', K8sUpdate ''ns'' ''a'' 3, K8sGet ''ns'' ''b'', K8sUpdate ''ns'' ''b'' 5])"
  using ScaleUpDeployments_first_failure
    [of "[]" "world0\<lparr>deploymentsUpdate := (\<lambda>n r. if n = ''b'' \<and> r = 5 then Some ''conflict'' else None)\<rparr>"
        "''ns''" "[]" "[\<lparr>Name = ''a'', Replicas = 3\<rparr>]" "\<lparr>Name = ''b'', Replicas = 5\<rparr>" "''conflict''"
        "[\<lparr>Name = ''c'', Replicas = 1\<rparr>]"]
  by (simp add: restorable_def restoreCalls_def world0_def)

text \<open>
  C2 as stated fails: with two entries whose fetch both fail, only the first is
  attempted and only the first is named in the error.
\<close>

theorem ScaleUpDeployments_aggregate_counterexample:
  "ScaleUpDeployments world_get_fails ''ns''
      [\<lparr>Name = ''a'', Replicas = 3\<rparr>, \<lparr>Name = ''b'', Replicas = 5\<rparr>] []
   = (Some ''failed to get deployment a: not found'', [K8sGet ''ns'' ''a''])
   \<and> K8sGet ''ns'' ''b'' \<notin> set (snd (ScaleUpDeployments world_get_fails ''ns''
        [\<lparr>Name = ''a'', Replicas = 3\<rparr>, \<lparr>Name = ''b'', Replicas = 5\<rparr>] []))
   \<and> K8sUpdate ''ns'' ''b'' 5 \<notin> set (snd (ScaleUpDeployments world_get_fails ''ns''
        [\<lparr>Name = ''a'', Replicas = 3\<rparr>, \<lparr>Name = ''b'', Replicas = 5\<rparr>] []))"
  by (simp add: world_get_fails_def world0_def)

section \<open>The restore run\<close>

lemma runRestore_restore_success:
  assumes "runRestore_restore w cfg tr = (None, tr')"
  shows "Log Success ''Restore completed successfully'' [] \<in> set tr'
         \<and> checkResponse ''failed to restore snapshot: '' (snapshotRestore w) = None"
  using assms
  by (auto simp: runRestore_restore_def GetSnapshot_def RestoreSnapshot_def
           split: sum.splits option.splits if_splits)

lemma runRestore_paused_success:
  assumes "runRestore_paused w cfg tr = Some (None, tr')"
  shows "Log Success ''Restore completed successfully'' [] \<in> set tr'
         \<and> checkResponse ''failed to restore snapshot: '' (snapshotRestore w) = None"
proof -
  from assms obtain tr1 tr2 where "runRestore_restore w cfg tr1 = (None, tr2)" and "tr' = tr2 @ [CloseStopChan]"
    by (auto simp: runRestore_paused_def runRestore_connected_def ListIndices_def
             split: option.splits if_splits sum.splits prod.splits)
  with runRestore_restore_success [of w cfg tr1 tr2] show ?thesis
    by simp
qed

text \<open>
  C1. The resume step is to run whenever the pause captured at least one entry, also
  when the pause itself failed part-way. The code does not do this in the second case:
  in the world below \<open>ScaleDownDeployments\<close> has scaled \<open>a\<close> to zero and captured
  \<open>a\<close> and \<open>b\<close> when the update of \<open>b\<close> fails; \<open>scaleDownDeployments\<close> drops the
  captured entries, \<open>runRestore\<close> returns before the deferred scale-up is registered,
  and the run ends with \<open>a\<close> left at zero replicas and no scale-up call at all.
\<close>

theorem partial_pause_is_never_resumed:
  "fst (ScaleDownDeployments world_pause_fails ''ns'' ''restore=scale-down'' [])
     = ([\<lparr>Name = ''a'', Replicas = 3\<rparr>, \<lparr>Name = ''b'', Replicas = 5\<rparr>],
        Some ''failed to scale down deployment b: conflict'')
   \<and> restoreCmd world_pause_fails
     = Some (1, [Log Info ''Scaling down deployments (selector: %s)...'' [S ''restore=scale-down''],
                 K8sList ''ns'' ''restore=scale-down'',
                 K8sUpdate ''ns'' ''a'' 0,
                 K8sUpdate ''ns'' ''b'' 0,
                 Stderr (''error: failed to scale down deployments: failed to scale down deployment b: conflict''
                         @ [newline])])"
  by (simp add: world_pause_fails_def world0_def cfg0_def restoreCmd_def runRestore_def
        scaleDownDeployments_def ScaleDownDeployments_def originalReplicas_def scaleOf_def)

section \<open>The confirmation\<close>

text \<open>Reading the line, and the library calls on it.\<close>

lemma ReadString_line:
  assumes "newline \<notin> set line"
  shows "ReadString (line @ newline # rest) = (line @ [newline], None)"
proof -
  have "takeWhile (\<lambda>c. c \<noteq> newline) (line @ newline # rest) = line"
    using assms by (induction line) auto
  then show ?thesis
    by (simp add: ReadString_def)
qed

lemma runesOf_ascii:
  assumes "list_all (\<lambda>b. b < 128) bs"
  shows "runesOf bs = bs"
  using assms by (induction bs) simp_all


lemma lowered_ascii_byte:
  assumes "(of_char c :: nat) < 128"
  shows "of_char (toLowerByte c) = lowered w (of_char c)"
  using assms by (simp add: toLowerByte_def lowered_def ToLowerRune_def ValidRune_def)

lemma ToLower_runes: "ToLower w s = map (lowered w) (runesOf (bytes s))"
proof (cases "isASCII s")
  case True
  then have a: "list_all (\<lambda>b. b < 128) (bytes s)"
    by (simp add: isASCII_def bytes_def list_all_iff)
  have "map (\<lambda>c. of_char (toLowerByte c)) s = map (lowered w) (bytes s)"
    using True by (simp add: isASCII_def bytes_def list_all_iff lowered_ascii_byte)
  with True a show ?thesis
    by (simp add: ToLower_def runesOf_ascii)
next
  case False
  then show ?thesis
    by (simp add: ToLower_def MapRunes_def lowered_def)
qed

lemma trim_iff:
  assumes "t \<noteq> []" and "\<not> P (hd t)" and "\<not> P (last t)"
  shows "(rev (dropWhile P (rev (dropWhile P xs))) = t)
         = (\<exists>pre post. xs = pre @ t @ post \<and> list_all P pre \<and> list_all P post)"
proof
  assume r: "rev (dropWhile P (rev (dropWhile P xs))) = t"
  let ?a = "dropWhile P xs"
  have 1: "xs = takeWhile P xs @ ?a"
    by simp
  have "rev ?a = takeWhile P (rev ?a) @ dropWhile P (rev ?a)"
    by simp
  then have "?a = rev (dropWhile P (rev ?a)) @ rev (takeWhile P (rev ?a))"
    by (metis rev_append rev_rev_ident)
  with r have 2: "?a = t @ rev (takeWhile P (rev ?a))"
    by simp
  have 3: "list_all P (takeWhile P xs)" "list_all P (rev (takeWhile P (rev ?a)))"
    by (auto simp: list_all_iff dest: set_takeWhileD)
  from 1 2 have "xs = takeWhile P xs @ t @ rev (takeWhile P (rev ?a))"
    by metis
  with 3 show "\<exists>pre post. xs = pre @ t @ post \<and> list_all P pre \<and> list_all P post"
    by blast
next
  assume "\<exists>pre post. xs = pre @ t @ post \<and> list_all P pre \<and> list_all P post"
  then obtain pre post where xs: "xs = pre @ t @ post" and p: "list_all P pre" "list_all P post"
    by blast
  from assms obtain a t' where t: "t = a # t'" and a: "\<not> P a"
    by (cases t) auto
  have d1: "dropWhile P xs = t @ post"
    using p(1) a by (simp add: xs t list_all_iff dropWhile_append2)
  have "rev (t @ post) = rev post @ rev t"
    by simp
  moreover have "dropWhile P (rev post @ rev t) = dropWhile P (rev t)"
    by (rule dropWhile_append2) (use p(2) in \<open>simp add: list_all_iff\<close>)
  moreover have "dropWhile P (rev t) = rev t"
    using assms by (cases "rev t") (auto simp: last_rev [symmetric] hd_rev)
  ultimately show "rev (dropWhile P (rev (dropWhile P xs))) = t"
    by (simp add: d1)
qed

lemma IsSpace_whiteSpace: "IsSpace r = whiteSpace r"
  by (auto simp: IsSpace_def whiteSpace_def) arith+

lemma whiteSpace_valid: "whiteSpace r \<Longrightarrow> ValidRune r"
  by (auto simp: whiteSpace_def ValidRune_def)

lemma lowered_space: "IsSpace (lowered w r) = blank w r"
proof (cases "r \<le> 0x7F")
  case True
  then show ?thesis
    by (auto simp: lowered_def ToLowerRune_def ValidRune_def IsSpace_def blank_def whiteSpace_def RuneError_def)
next
  case False
  then show ?thesis
    using whiteSpace_valid [of "caseTable w r"]
    by (auto simp: lowered_def ToLowerRune_def IsSpace_whiteSpace blank_def)
       (simp add: whiteSpace_def RuneError_def)
qed

text \<open>Trimming and lowering against the description without the library.\<close>

lemma split_map:
  "(\<exists>pre post. map f rs = pre @ t @ post \<and> list_all P pre \<and> list_all P post)
   = (\<exists>us ts ps. rs = us @ ts @ ps \<and> map f ts = t
        \<and> list_all (\<lambda>r. P (f r)) us \<and> list_all (\<lambda>r. P (f r)) ps)"
proof
  assume "\<exists>pre post. map f rs = pre @ t @ post \<and> list_all P pre \<and> list_all P post"
  then obtain pre post where m: "map f rs = pre @ t @ post" and p: "list_all P pre" "list_all P post"
    by blast
  from m obtain us vs where 1: "rs = us @ vs" "pre = map f us" "t @ post = map f vs"
    by (auto simp: map_eq_append_conv)
  from 1(3) obtain ts ps where 2: "vs = ts @ ps" "t = map f ts" "post = map f ps"
    by (auto simp: append_eq_map_conv)
  from 1 2 p show "\<exists>us ts ps. rs = us @ ts @ ps \<and> map f ts = t
        \<and> list_all (\<lambda>r. P (f r)) us \<and> list_all (\<lambda>r. P (f r)) ps"
    by (auto simp: list_all_iff)
next
  assume "\<exists>us ts ps. rs = us @ ts @ ps \<and> map f ts = t
        \<and> list_all (\<lambda>r. P (f r)) us \<and> list_all (\<lambda>r. P (f r)) ps"
  then obtain us ts ps where "rs = us @ ts @ ps" "map f ts = t"
      "list_all (\<lambda>r. P (f r)) us" "list_all (\<lambda>r. P (f r)) ps"
    by blast
  then have "map f rs = map f us @ t @ map f ps \<and> list_all P (map f us) \<and> list_all P (map f ps)"
    by (auto simp: list_all_iff)
  then show "\<exists>pre post. map f rs = pre @ t @ post \<and> list_all P pre \<and> list_all P post"
    by blast
qed

lemma lowered_y: "(lowered w r = 121) = letter w 0x79 0x59 r"
  by (auto simp: lowered_def ToLowerRune_def ValidRune_def letter_def RuneError_def)

lemma lowered_e: "(lowered w r = 101) = letter w 0x65 0x45 r"
  by (auto simp: lowered_def ToLowerRune_def ValidRune_def letter_def RuneError_def)

lemma lowered_s: "(lowered w r = 115) = letter w 0x73 0x53 r"
  by (auto simp: lowered_def ToLowerRune_def ValidRune_def letter_def RuneError_def)

lemma bytes_yes: "bytes ''yes'' = [121, 101, 115]" "bytes ''y'' = [121]"
  by (simp_all add: bytes_def)

lemma map_y:
  "(map (lowered w) ts = [121]) = (\<exists>c. ts = [c] \<and> letter w 0x79 0x59 c)"
  by (auto simp: map_eq_Cons_conv lowered_y)

lemma map_yes:
  "(map (lowered w) ts = [121, 101, 115])
   = (\<exists>c1 c2 c3. ts = [c1, c2, c3] \<and> letter w 0x79 0x59 c1
         \<and> letter w 0x65 0x45 c2 \<and> letter w 0x73 0x53 c3)"
  by (auto simp: map_eq_Cons_conv lowered_y lowered_e lowered_s)

lemma trimmed_word:
  assumes "t \<noteq> []" and "\<not> IsSpace (hd t)" and "\<not> IsSpace (last t)"
  shows "(TrimSpace (map (lowered w) rs) = t)
         = (\<exists>us ts ps. rs = us @ ts @ ps \<and> map (lowered w) ts = t
              \<and> list_all (blank w) us \<and> list_all (blank w) ps)"
proof -
  have "(TrimSpace (map (lowered w) rs) = t)
        = (\<exists>pre post. map (lowered w) rs = pre @ t @ post \<and> list_all IsSpace pre \<and> list_all IsSpace post)"
    unfolding TrimSpace_def by (rule trim_iff [OF assms])
  also have "\<dots> = (\<exists>us ts ps. rs = us @ ts @ ps \<and> map (lowered w) ts = t
        \<and> list_all (\<lambda>r. IsSpace (lowered w r)) us \<and> list_all (\<lambda>r. IsSpace (lowered w r)) ps)"
    by (rule split_map)
  finally show ?thesis
    by (simp only: lowered_space)
qed

lemma accepted_iff_affirmative:
  "(TrimSpace (ToLower w s) = bytes ''yes'' \<or> TrimSpace (ToLower w s) = bytes ''y'')
   = affirmative w (runesOf (bytes s))"
proof -
  let ?rs = "runesOf (bytes s)"
  have y: "(TrimSpace (map (lowered w) ?rs) = [121])
      = (\<exists>us ts ps. ?rs = us @ ts @ ps \<and> (\<exists>c. ts = [c] \<and> letter w 0x79 0x59 c)
              \<and> list_all (blank w) us \<and> list_all (blank w) ps)"
    by (subst trimmed_word) (simp_all add: IsSpace_def map_y)
  have yes: "(TrimSpace (map (lowered w) ?rs) = [121, 101, 115])
      = (\<exists>us ts ps. ?rs = us @ ts @ ps
              \<and> (\<exists>c1 c2 c3. ts = [c1, c2, c3] \<and> letter w 0x79 0x59 c1
                    \<and> letter w 0x65 0x45 c2 \<and> letter w 0x73 0x53 c3)
              \<and> list_all (blank w) us \<and> list_all (blank w) ps)"
    by (subst trimmed_word) (simp_all add: IsSpace_def map_yes)
  show ?thesis
    unfolding ToLower_runes bytes_yes y yes affirmative_def
    by blast
qed

lemma confirmDeletion_fst: "fst (confirmDeletion w tr) = fst (confirmDeletion w [])"
  by (simp add: confirmDeletion_def split: prod.splits option.splits)

lemma confirmDeletion_events: "snd (confirmDeletion w tr) = tr @ confirmPrompt"
  by (simp add: confirmDeletion_def confirmPrompt_def split: prod.splits option.splits)

lemma confirmDeletion_terminated:
  assumes "stdin w = line @ newline # rest" and "newline \<notin> set line"
  shows "fst (confirmDeletion w tr) =
         (if affirmative w (runesOf (bytes (line @ [newline]))) then None
          else Some ''restore cancelled by user'')"
  using accepted_iff_affirmative [of w "line @ [newline]"] ReadString_line [OF assms(2), of rest]
  by (auto simp: confirmDeletion_def assms(1))

lemma confirmDeletion_eof:
  assumes "newline \<notin> set (stdin w)"
  shows "fst (confirmDeletion w tr) = Some ''failed to read confirmation: EOF''"
  using assms by (simp add: confirmDeletion_def ReadString_def)

lemma deleteIndices_refused:
  assumes "fst (confirmDeletion w []) = Some e" and "stsIndices \<noteq> []"
  shows "deleteIndices w stsIndices cfg False tr =
         (Some e, tr @ foundIndices stsIndices @ confirmPrompt)"
proof -
  let ?tr = "tr @ Log Info ''Found %d STS index(es) to delete'' [I (int (length stsIndices))]
                # map (\<lambda>index. Log Debug ''  - %s'' [S index]) stsIndices"
  have "confirmDeletion w ?tr = (Some e, ?tr @ confirmPrompt)"
    using confirmDeletion_fst [of w ?tr] confirmDeletion_events [of w ?tr] assms(1)
    by (simp add: prod_eq_iff)
  with assms(2) show ?thesis
    by (simp add: deleteIndices_def foundIndices_def)
qed

text \<open>No delete call is issued by the pause, by the scale-up, or when the confirmation
  failed.\<close>

lemma count_list_map_none:
  assumes "\<And>x. f x \<noteq> e"
  shows "count_list (map f xs) e = 0"
  using assms by (induction xs) simp_all

lemma ScaleDown_loop_no_delete:
  "count_list (snd (ScaleDown_loop w ns ds acc tr)) (EsDeleteIndex i) = count_list tr (EsDeleteIndex i)"
  by (induction ds arbitrary: acc tr) (simp_all split: option.splits)

lemma scaleDownDeployments_no_delete:
  "count_list (snd (scaleDownDeployments w ns sel tr)) (EsDeleteIndex i) = count_list tr (EsDeleteIndex i)"
proof -
  let ?tr = "tr @ [Log Info ''Scaling down deployments (selector: %s)...'' [S sel]]"
  have "count_list (snd (ScaleDownDeployments w ns sel ?tr)) (EsDeleteIndex i) = count_list tr (EsDeleteIndex i)"
    by (simp add: ScaleDownDeployments_def ScaleDown_loop_no_delete split: sum.splits)
  then show ?thesis
    by (auto simp: scaleDownDeployments_def count_list_map_none split: prod.splits option.splits)
qed

lemma ScaleUpDeployments_no_delete:
  "count_list (snd (ScaleUpDeployments w ns scales tr)) (EsDeleteIndex i) = count_list tr (EsDeleteIndex i)"
  by (induction scales arbitrary: tr) (simp_all split: option.splits)

lemma deferred_scaleUp_no_delete:
  "count_list (deferred_scaleUp w scaled tr) (EsDeleteIndex i) = count_list tr (EsDeleteIndex i)"
proof -
  have "count_list (snd (ScaleUpDeployments w (Namespace w) scaled (tr @ [Println, resumeAnnounced])))
          (EsDeleteIndex i) = count_list tr (EsDeleteIndex i)"
    by (simp add: ScaleUpDeployments_no_delete resumeAnnounced_def)
  then show ?thesis
    by (auto simp: deferred_scaleUp_def count_list_map_none split: prod.splits option.splits)
qed


lemma refused_run:
  assumes "fst (confirmDeletion w []) = Some e"
      and "k8sNewClient w = None" and "LoadConfig w = Inr cfg"
      and "snd (fst (scaleDownDeployments w (Namespace w) (ScaleDownLabelSelector cfg) [])) = None"
      and "portForwardService w = None" and "portForwardReady w" and "esNewClient w = None"
      and "catIndices w = Inr allIndices" and "dropAllIndices w" and "\<not> skipConfirmation w"
      and "filterSTSIndices allIndices (IndexPrefix cfg) (DatastreamIndexPrefix cfg) \<noteq> []"
  shows "\<exists>tr. runRestore w = Some (Some e, tr)
              \<and> restoreCmd w = Some (1, tr @ [Stderr (''error: '' @ e @ [newline])])
              \<and> (\<forall>i. count_list tr (EsDeleteIndex i) = 0)"
proof -
  let ?sts = "filterSTSIndices allIndices (IndexPrefix cfg) (DatastreamIndexPrefix cfg)"
  obtain scaled tr0 where down:
    "scaleDownDeployments w (Namespace w) (ScaleDownLabelSelector cfg) [] = ((scaled, None), tr0)"
    using assms(4) by (metis prod.collapse)
  have tr0: "count_list tr0 (EsDeleteIndex i) = 0" for i
    using scaleDownDeployments_no_delete [of w "Namespace w" "ScaleDownLabelSelector cfg" "[]" i] down
    by simp
  let ?pf = "[Log Info ''Setting up port-forward to %s:%d in namespace %s...''
                [S (ServiceName cfg), I (Port cfg), S (Namespace w)],
              PortForwardService (Namespace w) (ServiceName cfg) (LocalPortForwardPort cfg) (Port cfg)]"
  let ?tr3 = "tr0 @ ?pf @ [WaitReady, Log Success ''Port-forward established successfully'' [],
                Log Info ''Fetching current Elasticsearch indices...'' [], EsListIndices ''*'', Println]"
  have del: "deleteIndices w ?sts cfg False ?tr3 = (Some e, ?tr3 @ foundIndices ?sts @ confirmPrompt)"
    by (rule deleteIndices_refused [OF assms(1,11)])
  let ?tr4 = "?tr3 @ foundIndices ?sts @ confirmPrompt @ [CloseStopChan]"
  have paused: "runRestore_paused w cfg tr0 = Some (Some e, ?tr4)"
    using assms(5-10) del
    by (simp add: runRestore_paused_def runRestore_connected_def ListIndices_def)
  have run: "runRestore w = Some (Some e, deferred_scaleUp w scaled ?tr4)"
    using assms(2,3) down paused by (simp add: runRestore_def)
  have cnt: "count_list (deferred_scaleUp w scaled ?tr4) (EsDeleteIndex i) = 0" for i
    by (simp add: deferred_scaleUp_no_delete tr0 foundIndices_def confirmPrompt_def count_list_map_none)
  from run cnt show ?thesis
    by (simp add: restoreCmd_def)
qed

text \<open>
  C9, as the code has it. \<open>confirmDeletion\<close> accepts exactly the lines ended by a
  newline whose lowercased and trimmed form is \<open>yes\<close> or \<open>y\<close>, lower case and white
  space being those of Unicode; what follows the newline is not looked at. Any other
  line ended by a newline gives the error \<open>restore cancelled by user\<close>. Input that ends
  before a newline gives the read error \<open>failed to read confirmation: EOF\<close>, whatever
  was typed. Whenever the confirmation fails, \<open>deleteIndices\<close> returns that error having
  issued no delete call, and a run that got as far as the confirmation fails with it
  (exit status 1) without a delete call in its whole trace.
\<close>

theorem confirmation_terminated_yes_or_y:
  "(stdin w = line @ newline # rest \<and> newline \<notin> set line \<longrightarrow>
      (fst (confirmDeletion w tr) = None) = affirmative w (runesOf (bytes (line @ [newline])))
      \<and> (\<not> affirmative w (runesOf (bytes (line @ [newline]))) \<longrightarrow>
            fst (confirmDeletion w tr) = Some ''restore cancelled by user''))
   \<and> (newline \<notin> set (stdin w) \<longrightarrow>
        fst (confirmDeletion w tr) = Some ''failed to read confirmation: EOF'')
   \<and> (fst (confirmDeletion w []) = Some e \<and> stsIndices \<noteq> [] \<longrightarrow>
        deleteIndices w stsIndices cfg False tr =
          (Some e, tr @ foundIndices stsIndices @ confirmPrompt)
        \<and> (\<forall>i. count_list (snd (deleteIndices w stsIndices cfg False tr)) (EsDeleteIndex i)
                 = count_list tr (EsDeleteIndex i)))
   \<and> (fst (confirmDeletion w []) = Some e
        \<and> k8sNewClient w = None \<and> LoadConfig w = Inr cfg
        \<and> snd (fst (scaleDownDeployments w (Namespace w) (ScaleDownLabelSelector cfg) [])) = None
        \<and> portForwardService w = None \<and> portForwardReady w \<and> esNewClient w = None
        \<and> catIndices w = Inr allIndices \<and> dropAllIndices w \<and> \<not> skipConfirmation w
        \<and> filterSTSIndices allIndices (IndexPrefix cfg) (DatastreamIndexPrefix cfg) \<noteq> [] \<longrightarrow>
        (\<exists>tr'. runRestore w = Some (Some e, tr')
               \<and> restoreCmd w = Some (1, tr' @ [Stderr (''error: '' @ e @ [newline])])
               \<and> (\<forall>i. count_list tr' (EsDeleteIndex i) = 0)))"
proof (intro conjI impI)
  assume a: "stdin w = line @ newline # rest \<and> newline \<notin> set line"
  then have t: "fst (confirmDeletion w tr) =
      (if affirmative w (runesOf (bytes (line @ [newline]))) then None
       else Some ''restore cancelled by user'')"
    using confirmDeletion_terminated [of w line rest tr] by blast
  show "(fst (confirmDeletion w tr) = None) = affirmative w (runesOf (bytes (line @ [newline])))"
    by (simp add: t)
  assume "\<not> affirmative w (runesOf (bytes (line @ [newline])))"
  then show "fst (confirmDeletion w tr) = Some ''restore cancelled by user''"
    by (simp add: t)
next
  assume "newline \<notin> set (stdin w)"
  then show "fst (confirmDeletion w tr) = Some ''failed to read confirmation: EOF''"
    by (rule confirmDeletion_eof)
next
  assume a: "fst (confirmDeletion w []) = Some e \<and> stsIndices \<noteq> []"
  then show d: "deleteIndices w stsIndices cfg False tr =
          (Some e, tr @ foundIndices stsIndices @ confirmPrompt)"
    using deleteIndices_refused by blast
  show "\<forall>i. count_list (snd (deleteIndices w stsIndices cfg False tr)) (EsDeleteIndex i)
                 = count_list tr (EsDeleteIndex i)"
    by (simp add: d foundIndices_def confirmPrompt_def count_list_map_none)
next
  assume "fst (confirmDeletion w []) = Some e
        \<and> k8sNewClient w = None \<and> LoadConfig w = Inr cfg
        \<and> snd (fst (scaleDownDeployments w (Namespace w) (ScaleDownLabelSelector cfg) [])) = None
        \<and> portForwardService w = None \<and> portForwardReady w \<and> esNewClient w = None
        \<and> catIndices w = Inr allIndices \<and> dropAllIndices w \<and> \<not> skipConfirmation w
        \<and> filterSTSIndices allIndices (IndexPrefix cfg) (DatastreamIndexPrefix cfg) \<noteq> []"
  then show "\<exists>tr'. runRestore w = Some (Some e, tr')
               \<and> restoreCmd w = Some (1, tr' @ [Stderr (''error: '' @ e @ [newline])])
               \<and> (\<forall>i. count_list tr' (EsDeleteIndex i) = 0)"
    using refused_run by blast
qed

lemma world0_reaches_confirmation:
  assumes "w = world0\<lparr>stdin := input\<rparr>"
  shows "k8sNewClient w = None \<and> LoadConfig w = Inr cfg0
        \<and> snd (fst (scaleDownDeployments w (Namespace w) (ScaleDownLabelSelector cfg0) [])) = None
        \<and> portForwardService w = None \<and> portForwardReady w \<and> esNewClient w = None
        \<and> catIndices w = Inr [''sts_topology'', ''other_index'']
        \<and> dropAllIndices w \<and> \<not> skipConfirmation w
        \<and> filterSTSIndices [''sts_topology'', ''other_index''] (IndexPrefix cfg0) (DatastreamIndexPrefix cfg0) \<noteq> []"
  unfolding assms
  by (simp add: world0_def cfg0_def scaleDownDeployments_def
          ScaleDownDeployments_def originalReplicas_def scaleOf_def filterSTSIndices_def HasPrefix_def)

lemmas confirm_eval = confirmDeletion_def ReadString_def newline_def ToLower_runes bytes_def
  lowered_def ToLowerRune_def ValidRune_def utf8Size_def acceptLo_def acceptHi_def
  TrimSpace_def IsSpace_def RuneError_def

theorem confirmation_terminated_yes_or_y_witness:
  "affirmative world_agrees [0x20, 0x59, 0x65, 0x53, 0xA0, 0x3000, 0x0A]
   \<and> fst (confirmDeletion world_agrees []) = None
   \<and> fst (confirmDeletion world_declines []) = Some ''restore cancelled by user''
   \<and> map_option fst (restoreCmd world_declines) = Some 1
   \<and> map_option fst (runRestore world_no_eof) = Some (Some ''failed to read confirmation: EOF'')"
proof -
  let ?line = "'' YeS'' @ [CHR 0xC2, CHR 0xA0, CHR 0xE3, CHR 0x80, CHR 0x80]"
  have in1: "stdin world_agrees = ?line @ newline # ''more'' \<and> newline \<notin> set ?line"
    by (simp add: world_agrees_def world0_def newline_def)
  have r1: "runesOf (bytes (?line @ [newline])) = [0x20, 0x59, 0x65, 0x53, 0xA0, 0x3000, 0x0A]"
    by (simp add: bytes_def utf8Size_def acceptLo_def acceptHi_def newline_def)
  have c1: "fst (confirmDeletion world_agrees []) = None"
    by (simp add: world_agrees_def world0_def confirm_eval)
  from confirmation_terminated_yes_or_y [of world_agrees ?line "''more''" "[]"] in1 c1
  have yes: "affirmative world_agrees [0x20, 0x59, 0x65, 0x53, 0xA0, 0x3000, 0x0A]"
    by (simp only: r1 simp_thms)
  have in2: "stdin world_declines = ''no'' @ newline # [] \<and> newline \<notin> set ''no''"
    by (simp add: world_declines_def world0_def newline_def)
  have c2: "fst (confirmDeletion world_declines []) = Some ''restore cancelled by user''"
    by (simp add: world_declines_def world0_def confirm_eval)
  note t2 = confirmation_terminated_yes_or_y
    [of world_declines "''no''" "[]" "[]" "''restore cancelled by user''" _ cfg0
        "[''sts_topology'', ''other_index'']"]
  from t2 c2 world0_reaches_confirmation [OF world_declines_def] obtain tr' where
    "restoreCmd world_declines
       = Some (1, tr' @ [Stderr (''error: '' @ ''restore cancelled by user'' @ [newline])])"
    by blast
  then have no: "map_option fst (restoreCmd world_declines) = Some 1"
    by simp
  have in3: "newline \<notin> set (stdin world_no_eof)"
    by (simp add: world_no_eof_def world0_def newline_def)
  note t3 = confirmation_terminated_yes_or_y
    [of world_no_eof _ _ "[]" "''failed to read confirmation: EOF''" _ cfg0
        "[''sts_topology'', ''other_index'']"]
  from t3 in3 have c3: "fst (confirmDeletion world_no_eof []) = Some ''failed to read confirmation: EOF''"
    by blast
  from t3 c3 world0_reaches_confirmation [OF world_no_eof_def] obtain tr'' where
    "runRestore world_no_eof = Some (Some ''failed to read confirmation: EOF'', tr'')"
    by blast
  then have eof: "map_option fst (runRestore world_no_eof) = Some (Some ''failed to read confirmation: EOF'')"
    by simp
  from yes c1 c2 no eof show ?thesis
    by blast
qed

text \<open>
  C9 as stated fails: \<open>yes\<close> typed without a newline before the end of the input has
  the trimmed form \<open>yes\<close> and is not accepted, and \<open>no\<close> typed the same way fails with
  the read error, not with the cancellation.
\<close>

theorem confirmation_unterminated_yes_counterexample:
  "TrimSpace (ToLower world_yes_eof (stdin world_yes_eof)) = bytes ''yes''
   \<and> fst (confirmDeletion world_yes_eof []) = Some ''failed to read confirmation: EOF''
   \<and> fst (confirmDeletion world_no_eof []) = Some ''failed to read confirmation: EOF''"
  by (simp add: world_yes_eof_def world_no_eof_def world0_def confirm_eval)

section \<open>A failed scale-up after a successful restore\<close>

lemma logged_append: "logged w (tr @ tr') = logged w tr @ logged w tr'"
  by (simp add: logged_def)

lemma Logger_output_quiet:
  assumes "Quiet w" and "\<not> DebugFlag w"
  shows "Logger_output w e = []"
proof (cases e)
  case (Log l f a)
  with assms show ?thesis
    by (cases l) simp_all
qed (use assms in simp_all)

lemma logged_quiet:
  assumes "Quiet w" and "\<not> DebugFlag w"
  shows "logged w tr = []"
  using Logger_output_quiet [OF assms] by (simp add: logged_def)

lemma resume_failure_run:
  assumes "k8sNewClient w = None"
      and "LoadConfig w = Inr cfg"
      and "scaleDownDeployments w (Namespace w) (ScaleDownLabelSelector cfg) [] = ((scaled, None), tr0)"
      and "runRestore_paused w cfg tr0 = Some (None, tr1)"
      and "scaled \<noteq> []"
      and "ScaleUpDeployments w (Namespace w) scaled (tr1 @ [Println, resumeAnnounced]) = (Some err, tr2)"
  shows "runRestore w = Some (None, tr2 @ [Log Warning ''Failed to scale up deployments: %v'' [S err]])"
    and "restoreCmd w = Some (0, tr2 @ [Log Warning ''Failed to scale up deployments: %v'' [S err]])"
    and "Log Success ''Restore completed successfully'' [] \<in> set tr1"
proof -
  show run: "runRestore w = Some (None, tr2 @ [Log Warning ''Failed to scale up deployments: %v'' [S err]])"
    using assms by (simp add: runRestore_def deferred_scaleUp_def)
  then show "restoreCmd w = Some (0, tr2 @ [Log Warning ''Failed to scale up deployments: %v'' [S err]])"
    by (simp add: restoreCmd_def)
  show "Log Success ''Restore completed successfully'' [] \<in> set tr1"
    using runRestore_paused_success [OF assms(4)] by simp
qed

text \<open>
  C4, as the code has it. When every phase up to and including the snapshot restore
  succeeded and the deferred scale-up then fails, \<open>runRestore\<close> still returns no error
  and the command ends with exit status 0. The failure is handed to \<open>Warningf\<close>, which
  writes it to standard error as a warning unless the logger is quiet; with
  \<open>--quiet\<close> nothing is written about it.
\<close>

theorem resume_failure_warns_unless_quiet:
  assumes "k8sNewClient w = None"
      and "LoadConfig w = Inr cfg"
      and "scaleDownDeployments w (Namespace w) (ScaleDownLabelSelector cfg) [] = ((scaled, None), tr0)"
      and "runRestore_paused w cfg tr0 = Some (None, tr1)"
      and "scaled \<noteq> []"
      and "ScaleUpDeployments w (Namespace w) scaled (tr1 @ [Println, resumeAnnounced]) = (Some err, tr2)"
  shows "runRestore w = Some (None, tr2 @ [Log Warning ''Failed to scale up deployments: %v'' [S err]])
         \<and> restoreCmd w = Some (0, tr2 @ [Log Warning ''Failed to scale up deployments: %v'' [S err]])
         \<and> Log Success ''Restore completed successfully'' [] \<in> set tr1
         \<and> logged w (tr2 @ [Log Warning ''Failed to scale up deployments: %v'' [S err]])
             = logged w tr2
               @ (if Quiet w then []
                  else [(''Warning: Failed to scale up deployments: %v'' @ [newline], [S err])])"
  using resume_failure_run [OF assms]
  by (simp add: logged_append) (simp add: logged_def)

lemma get_fails_run:
  assumes "w = world_get_fails\<lparr>Quiet := q\<rparr>"
  shows "\<exists>tr0 tr1.
           k8sNewClient w = None \<and> LoadConfig w = Inr cfg0
           \<and> scaleDownDeployments w (Namespace w) (ScaleDownLabelSelector cfg0) []
               = (([\<lparr>Name = ''a'', Replicas = 3\<rparr>, \<lparr>Name = ''b'', Replicas = 5\<rparr>], None), tr0)
           \<and> runRestore_paused w cfg0 tr0 = Some (None, tr1)
           \<and> ScaleUpDeployments w (Namespace w)
                 [\<lparr>Name = ''a'', Replicas = 3\<rparr>, \<lparr>Name = ''b'', Replicas = 5\<rparr>]
                 (tr1 @ [Println, resumeAnnounced])
               = (Some ''failed to get deployment a: not found'',
                  (tr1 @ [Println, resumeAnnounced]) @ [K8sGet (Namespace w) ''a''])"
proof -
  let ?scaled = "[\<lparr>Name = ''a'', Replicas = 3\<rparr>, \<lparr>Name = ''b'', Replicas = 5\<rparr>]"
  have h1: "k8sNewClient w = None" and h2: "LoadConfig w = Inr cfg0"
    by (simp_all add: assms world_get_fails_def world0_def)
  obtain tr0 where h3: "scaleDownDeployments w (Namespace w) (ScaleDownLabelSelector cfg0) []
      = ((?scaled, None), tr0)"
    by (simp add: assms world_get_fails_def world0_def cfg0_def scaleDownDeployments_def
          ScaleDownDeployments_def originalReplicas_def scaleOf_def)
  have "map_option fst (runRestore_paused w cfg0 tr0) = Some None"
    by (simp add: assms world_get_fails_def world0_def cfg0_def runRestore_paused_def
          runRestore_connected_def ListIndices_def filterSTSIndices_def HasPrefix_def
          deleteIndices_def confirm_eval deleteIndices_confirmed_def
          deleteIndexWithVerification_def DeleteIndex_def checkResponse_def IsError_def
          IndexExists_def StatusNotFound_def defaultMaxIndexDeleteAttempts_def
          runRestore_restore_def GetSnapshot_def RestoreSnapshot_def
          verify_loop.simps [of _ _ 0])
  then obtain tr1 where h4: "runRestore_paused w cfg0 tr0 = Some (None, tr1)"
    by (cases "runRestore_paused w cfg0 tr0") auto
  have h6: "ScaleUpDeployments w (Namespace w) ?scaled (tr1 @ [Println, resumeAnnounced])
      = (Some ''failed to get deployment a: not found'',
         (tr1 @ [Println, resumeAnnounced]) @ [K8sGet (Namespace w) ''a''])"
    by (simp add: assms world_get_fails_def world0_def)
  from h1 h2 h3 h4 h6 show ?thesis
    by blast
qed

theorem resume_failure_warns_unless_quiet_witness:
  "map_option fst (restoreCmd world_get_fails) = Some 0
   \<and> map_option (last \<circ> snd) (restoreCmd world_get_fails)
       = Some (Log Warning ''Failed to scale up deployments: %v''
                 [S ''failed to get deployment a: not found''])
   \<and> map_option (last \<circ> logged world_get_fails \<circ> snd) (restoreCmd world_get_fails)
       = Some (''Warning: Failed to scale up deployments: %v'' @ [newline],
               [S ''failed to get deployment a: not found''])"
proof -
  let ?w = "world_get_fails"
  have "?w = world_get_fails\<lparr>Quiet := False\<rparr>"
    by (simp add: world_get_fails_def world0_def)
  from get_fails_run [OF this] obtain tr0 tr1 where
    h1: "k8sNewClient ?w = None" and h2: "LoadConfig ?w = Inr cfg0"
    and h3: "scaleDownDeployments ?w (Namespace ?w) (ScaleDownLabelSelector cfg0) []
               = (([\<lparr>Name = ''a'', Replicas = 3\<rparr>, \<lparr>Name = ''b'', Replicas = 5\<rparr>], None), tr0)"
    and h4: "runRestore_paused ?w cfg0 tr0 = Some (None, tr1)"
    and h6: "ScaleUpDeployments ?w (Namespace ?w)
                 [\<lparr>Name = ''a'', Replicas = 3\<rparr>, \<lparr>Name = ''b'', Replicas = 5\<rparr>]
                 (tr1 @ [Println, resumeAnnounced])
               = (Some ''failed to get deployment a: not found'',
                  (tr1 @ [Println, resumeAnnounced]) @ [K8sGet (Namespace ?w) ''a''])"
    by blast
  have h5: "[\<lparr>Name = ''a'', Replicas = 3\<rparr>, \<lparr>Name = ''b'', Replicas = 5\<rparr>] \<noteq> []"
    by simp
  have nq: "\<not> Quiet ?w"
    by (simp add: world_get_fails_def world0_def)
  show ?thesis
    using resume_failure_warns_unless_quiet [OF h1 h2 h3 h4 h5 h6] nq by simp
qed

text \<open>
  C4 as stated fails: in quiet mode the scale-up fails, the exit status is 0 and the
  logger has written nothing at all.
\<close>

theorem resume_failure_silent_counterexample:
  "map_option fst (restoreCmd world_get_fails_quiet) = Some 0
   \<and> map_option (last \<circ> snd) (restoreCmd world_get_fails_quiet)
       = Some (Log Warning ''Failed to scale up deployments: %v''
                 [S ''failed to get deployment a: not found''])
   \<and> map_option (logged world_get_fails_quiet \<circ> snd) (restoreCmd world_get_fails_quiet) = Some []"
proof -
  let ?w = "world_get_fails_quiet"
  have "?w = world_get_fails\<lparr>Quiet := True\<rparr>"
    by (simp add: world_get_fails_quiet_def)
  from get_fails_run [OF this] obtain tr0 tr1 where
    h1: "k8sNewClient ?w = None" and h2: "LoadConfig ?w = Inr cfg0"
    and h3: "scaleDownDeployments ?w (Namespace ?w) (ScaleDownLabelSelector cfg0) []
               = (([\<lparr>Name = ''a'', Replicas = 3\<rparr>, \<lparr>Name = ''b'', Replicas = 5\<rparr>], None), tr0)"
    and h4: "runRestore_paused ?w cfg0 tr0 = Some (None, tr1)"
    and h6: "ScaleUpDeployments ?w (Namespace ?w)
                 [\<lparr>Name = ''a'', Replicas = 3\<rparr>, \<lparr>Name = ''b'', Replicas = 5\<rparr>]
                 (tr1 @ [Println, resumeAnnounced])
               = (Some ''failed to get deployment a: not found'',
                  (tr1 @ [Println, resumeAnnounced]) @ [K8sGet (Namespace ?w) ''a''])"
    by blast
  have h5: "[\<lparr>Name = ''a'', Replicas = 3\<rparr>, \<lparr>Name = ''b'', Replicas = 5\<rparr>] \<noteq> []"
    by simp
  have q: "Quiet ?w" "\<not> DebugFlag ?w"
    by (simp_all add: world_get_fails_quiet_def world_get_fails_def world0_def)
  show ?thesis
    using resume_failure_run(2) [OF h1 h2 h3 h4 h5 h6] logged_quiet [OF q] by simp
qed

section \<open>The scale-up after a successful pause\<close>

text \<open>
  No function called between the pause and the return of \<open>runRestore\<close> logs the
  announcement of the scale-up; \<open>filter announces\<close> of a trace is therefore unchanged
  by each of them.
\<close>

lemma announces_iff: "announces e = (e = resumeAnnounced)"
  by (cases e) (auto simp: resumeAnnounced_def)

lemma verify_loop_quiet:
  "filter announces (snd (verify_loop w index attempt tr)) = filter announces tr"
proof (induction w index attempt tr rule: verify_loop.induct)
  case (1 w index attempt tr)
  show ?case
    using "1.IH"
    by (subst verify_loop.simps) (auto simp: IndexExists_def split: prod.splits option.splits)
qed

lemma deleteIndexWithVerification_quiet:
  "filter announces (snd (deleteIndexWithVerification w index tr)) = filter announces tr"
  by (simp add: deleteIndexWithVerification_def DeleteIndex_def verify_loop_quiet split: option.splits)

lemma deleteIndices_loop_quiet:
  "filter announces (snd (deleteIndices_loop w indices tr)) = filter announces tr"
proof (induction indices arbitrary: tr)
  case Nil
  then show ?case by simp
next
  case (Cons index rest)
  obtain r tr1 where d: "deleteIndexWithVerification w index tr = (r, tr1)"
    by (metis prod.collapse)
  with deleteIndexWithVerification_quiet [of w index tr]
  have "filter announces tr1 = filter announces tr"
    by simp
  with d Cons.IH [of tr1] show ?case
    by (cases r) simp_all
qed

lemma filter_announces_map:
  assumes "\<And>x. \<not> announces (f x)"
  shows "filter announces (map f xs) = []"
  using assms by (induction xs) simp_all


lemma deleteIndices_confirmed_quiet:
  "filter announces (snd (deleteIndices_confirmed w stsIndices cfg tr)) = filter announces tr"
  by (simp add: deleteIndices_confirmed_def RolloverDatastream_def case_prod_beta
        deleteIndices_loop_quiet split: option.splits)

lemma confirmDeletion_quiet:
  "filter announces (snd (confirmDeletion w tr)) = filter announces tr"
  by (simp add: confirmDeletion_def case_prod_beta split: option.splits)

lemma deleteIndices_quiet:
  "filter announces (snd (deleteIndices w stsIndices cfg skipConfirm tr)) = filter announces tr"
  by (simp add: deleteIndices_def case_prod_beta deleteIndices_confirmed_quiet
        confirmDeletion_quiet filter_announces_map split: option.splits)

lemma runRestore_restore_quiet:
  "filter announces (snd (runRestore_restore w cfg tr)) = filter announces tr"
  by (simp add: runRestore_restore_def GetSnapshot_def RestoreSnapshot_def case_prod_beta
        filter_announces_map split: option.splits sum.splits)

lemma runRestore_connected_quiet:
  assumes "runRestore_connected w cfg tr = Some (r, tr')"
  shows "filter announces tr' = filter announces tr"
proof (cases "dropAllIndices w")
  case False
  with assms runRestore_restore_quiet [of w cfg "tr @ [WaitReady, Log Success ''Port-forward established successfully'' [],
                            Log Info ''Fetching current Elasticsearch indices...'' [], EsListIndices ''*'']"]
  show ?thesis
    by (auto simp: runRestore_connected_def ListIndices_def split: if_splits option.splits sum.splits)
next
  case True
  from assms have ready: "portForwardReady w"
    by (simp add: runRestore_connected_def split: if_splits)
  show ?thesis
  proof (cases "esNewClient w")
    case (Some e)
    with assms ready show ?thesis
      by (auto simp: runRestore_connected_def)
  next
    case None
    show ?thesis
    proof (cases "catIndices w")
      case (Inl e)
      with assms ready None show ?thesis
        by (auto simp: runRestore_connected_def ListIndices_def)
    next
      case (Inr allIndices)
      let ?tr1 = "tr @ [WaitReady, Log Success ''Port-forward established successfully'' [],
                        Log Info ''Fetching current Elasticsearch indices...'' [], EsListIndices ''*'', Println]"
      let ?sts = "filterSTSIndices allIndices (IndexPrefix cfg) (DatastreamIndexPrefix cfg)"
      obtain d tr2 where del: "deleteIndices w ?sts cfg (skipConfirmation w) ?tr1 = (d, tr2)"
        by (metis prod.collapse)
      with deleteIndices_quiet [of w ?sts cfg "skipConfirmation w" ?tr1]
      have q2: "filter announces tr2 = filter announces tr"
        by simp
      show ?thesis
      proof (cases d)
        case (Some e)
        with assms ready None Inr True del q2 show ?thesis
          by (auto simp: runRestore_connected_def ListIndices_def)
      next
        case dNone: None
        with assms ready None Inr True del
        have "runRestore_restore w cfg tr2 = (r, tr')"
          by (auto simp: runRestore_connected_def ListIndices_def)
        with runRestore_restore_quiet [of w cfg tr2] q2 show ?thesis
          by simp
      qed
    qed
  qed
qed

lemma runRestore_paused_quiet:
  assumes "runRestore_paused w cfg tr = Some (r, tr')"
  shows "filter announces tr' = filter announces tr"
proof (cases "portForwardService w")
  case (Some e)
  with assms show ?thesis
    by (auto simp: runRestore_paused_def)
next
  case None
  with assms obtain tr1 where
    c: "runRestore_connected w cfg
          (tr @ [Log Info ''Setting up port-forward to %s:%d in namespace %s...''
                   [S (ServiceName cfg), I (Port cfg), S (Namespace w)],
                 PortForwardService (Namespace w) (ServiceName cfg) (LocalPortForwardPort cfg) (Port cfg)])
        = Some (r, tr1)" and t: "tr' = tr1 @ [CloseStopChan]"
    by (auto simp: runRestore_paused_def split: option.splits)
  from runRestore_connected_quiet [OF c] t show ?thesis
    by simp
qed

lemma ScaleDown_loop_quiet:
  "filter announces (snd (ScaleDown_loop w ns ds acc tr)) = filter announces tr"
  by (induction ds arbitrary: acc tr) (simp_all split: option.splits)

lemma scaleDownDeployments_quiet:
  "filter announces (snd (scaleDownDeployments w ns sel tr)) = filter announces tr"
  by (simp add: scaleDownDeployments_def ScaleDownDeployments_def case_prod_beta
        ScaleDown_loop_quiet filter_announces_map split: option.splits sum.splits)

lemma ScaleUpDeployments_quiet:
  "filter announces (snd (ScaleUpDeployments w ns scales tr)) = filter announces tr"
  by (induction scales arbitrary: tr) (simp_all split: option.splits)

lemma announces_resume: "announces resumeAnnounced"
  by (simp add: resumeAnnounced_def)

lemma deferred_scaleUp_announces:
  "filter announces (deferred_scaleUp w scaled tr) =
     filter announces tr @ (if scaled = [] then [] else [resumeAnnounced])"
  by (simp add: deferred_scaleUp_def case_prod_beta ScaleUpDeployments_quiet filter_announces_map
        announces_resume split: option.splits)

lemma ScaleUpDeployments_extends:
  "\<exists>es. snd (ScaleUpDeployments w ns scales tr) = tr @ es"
proof (induction scales arbitrary: tr)
  case Nil
  then show ?case by simp
next
  case (Cons s scales)
  from Cons.IH [of "tr @ [K8sGet ns (Name s), K8sUpdate ns (Name s) (Replicas s)]"]
  show ?case
    by (auto split: option.splits)
qed

lemma ScaleUpDeployments_first_get:
  assumes "scales \<noteq> []"
  shows "\<exists>es. snd (ScaleUpDeployments w ns scales tr) = tr @ K8sGet ns (Name (hd scales)) # es"
proof -
  from assms obtain s rest where sc: "scales = s # rest"
    by (cases scales) auto
  from ScaleUpDeployments_extends [of w ns rest "tr @ [K8sGet ns (Name s), K8sUpdate ns (Name s) (Replicas s)]"]
  show ?thesis
    unfolding sc by (auto split: option.splits)
qed

lemma deferred_scaleUp_calls:
  assumes "scaled \<noteq> []"
  shows "\<exists>es. deferred_scaleUp w scaled tr =
           tr @ [Println, resumeAnnounced, K8sGet (Namespace w) (Name (hd scaled))] @ es"
proof -
  from ScaleUpDeployments_first_get [OF assms, of w "Namespace w" "tr @ [Println, resumeAnnounced]"]
  obtain es where "snd (ScaleUpDeployments w (Namespace w) scaled (tr @ [Println, resumeAnnounced]))
      = (tr @ [Println, resumeAnnounced]) @ K8sGet (Namespace w) (Name (hd scaled)) # es"
    by blast
  with assms show ?thesis
    by (simp add: deferred_scaleUp_def case_prod_beta split: option.splits)
qed

text \<open>
  When the pause succeeded and captured at least one entry, every run that returns has
  announced the scale-up exactly once, at the end, followed by the fetch of the first
  captured deployment; the error returned is the one of the phases before, whichever of
  them failed, or none.
\<close>

lemma resume_once_after_pause:
  assumes "k8sNewClient w = None"
      and "LoadConfig w = Inr cfg"
      and "scaleDownDeployments w (Namespace w) (ScaleDownLabelSelector cfg) [] = ((scaled, None), tr0)"
      and "scaled \<noteq> []"
      and "runRestore w = Some (r, tr)"
  shows "filter announces tr = [resumeAnnounced]
         \<and> (\<exists>tr1 es. runRestore_paused w cfg tr0 = Some (r, tr1)
               \<and> tr = tr1 @ [Println, resumeAnnounced, K8sGet (Namespace w) (Name (hd scaled))] @ es)"
proof -
  from assms obtain tr1 where p: "runRestore_paused w cfg tr0 = Some (r, tr1)"
    and t: "tr = deferred_scaleUp w scaled tr1"
    by (auto simp: runRestore_def split: option.splits)
  have "filter announces tr0 = []"
    using scaleDownDeployments_quiet [of w "Namespace w" "ScaleDownLabelSelector cfg" "[]"] assms(3)
    by simp
  with runRestore_paused_quiet [OF p] have "filter announces tr1 = []"
    by simp
  with t assms(4) have one: "filter announces tr = [resumeAnnounced]"
    by (simp add: deferred_scaleUp_announces)
  from deferred_scaleUp_calls [OF assms(4), of w tr1] t p one show ?thesis
    by blast
qed

end
